theory Spec2Isabelle
  imports Main "HOL-Library.Word"
begin

unbundle bit_operations_syntax

section \<open>Memory model\<close>

text \<open>
  An \<^verbatim>\<open>*ErrorClass\<close> is a pointer, and the code compares classes by pointer
  (\<^verbatim>\<open>check == parent\<close>).  The classes therefore live in a store: a list of cells, a
  non-nil pointer being the index of its cell and \<open>None\<close> being \<^verbatim>\<open>nil\<close>.  Allocation
  (\<^verbatim>\<open>&ErrorClass{...}\<close>) appends a cell.  Go has no dangling pointers; reading an
  index outside the store gives no result in the model.
\<close>

definition deref :: "'a list \<Rightarrow> nat \<Rightarrow> 'a option" where
  "deref h r = (if r < length h then Some (h ! r) else None)"

definition alloc :: "'a list \<Rightarrow> 'a \<Rightarrow> nat \<times> 'a list" where
  "alloc h c = (length h, h @ [c])"

section \<open>Package errors: error classes\<close>

type_synonym ErrorClassFlags = "64 word"

definition LogOnCreation :: ErrorClassFlags where
  "LogOnCreation = push_bit 0 1"

definition CaptureStack :: ErrorClassFlags where
  "CaptureStack = push_bit 1 1"

record ErrorClass =
  parent :: "nat option"
  name :: string
  flags :: ErrorClassFlags

text \<open>
  The package-level variables, in the order their initialisers run; each is the address
  of the cell that \<open>package_classes\<close> holds for it.
\<close>

definition SystemError :: nat where "SystemError = 0"
definition HierarchicalError :: nat where "HierarchicalError = 1"
definition NotImplementedError :: nat where "NotImplementedError = 2"
definition ProgrammerError :: nat where "ProgrammerError = 3"
definition SyscallError :: nat where "SyscallError = 4"
definition ErrnoError :: nat where "ErrnoError = 5"
definition NetworkError :: nat where "NetworkError = 6"
definition UnknownNetworkError :: nat where "UnknownNetworkError = 7"
definition AddrError :: nat where "AddrError = 8"
definition InvalidAddrError :: nat where "InvalidAddrError = 9"
definition NetOpError :: nat where "NetOpError = 10"
definition NetParseError :: nat where "NetParseError = 11"
definition DNSError :: nat where "DNSError = 12"
definition DNSConfigError :: nat where "DNSConfigError = 13"

definition NewSpecified ::
  "ErrorClass list \<Rightarrow> nat option \<Rightarrow> string \<Rightarrow> ErrorClassFlags \<Rightarrow> nat \<times> ErrorClass list" where
  "NewSpecified h ec nm fl =
     (let ec' = (if ec = None then Some HierarchicalError else ec)
      in alloc h \<lparr>parent = ec', name = nm, flags = fl\<rparr>)"

definition NewWith ::
  "ErrorClass list \<Rightarrow> nat option \<Rightarrow> string \<Rightarrow> ErrorClassFlags \<Rightarrow> (nat \<times> ErrorClass list) option" where
  "NewWith h ec nm flags_to_add =
     (let ec' = (if ec = None then Some HierarchicalError else ec)
      in case ec' of
           None \<Rightarrow> None
         | Some p \<Rightarrow>
             (case deref h p of
                None \<Rightarrow> None
              | Some pc \<Rightarrow>
                  Some (alloc h \<lparr>parent = ec', name = nm, flags = flags pc OR flags_to_add\<rparr>)))"

definition NewWithout ::
  "ErrorClass list \<Rightarrow> nat option \<Rightarrow> string \<Rightarrow> ErrorClassFlags \<Rightarrow> (nat \<times> ErrorClass list) option" where
  "NewWithout h ec nm flags_to_remove =
     (let ec' = (if ec = None then Some HierarchicalError else ec)
      in case ec' of
           None \<Rightarrow> None
         | Some p \<Rightarrow>
             (case deref h p of
                None \<Rightarrow> None
              | Some pc \<Rightarrow>
                  Some (alloc h \<lparr>parent = ec', name = nm,
                                 flags = flags pc AND NOT flags_to_remove\<rparr>)))"

definition New :: "ErrorClass list \<Rightarrow> nat option \<Rightarrow> string \<Rightarrow> (nat \<times> ErrorClass list) option" where
  "New h ec nm =
     (let ec' = (if ec = None then Some HierarchicalError else ec)
      in case ec' of
           None \<Rightarrow> None
         | Some p \<Rightarrow>
             (case deref h p of
                None \<Rightarrow> None
              | Some pc \<Rightarrow> Some (alloc h \<lparr>parent = ec', name = nm, flags = flags pc\<rparr>)))"

text \<open>
  \<^verbatim>\<open>ErrorClass.Is\<close>: the loop \<^verbatim>\<open>for check := e; check != nil; check = check.parent\<close>.
  Its first argument is the loop variable, which starts at the receiver.  On a store
  whose parent links form a cycle the loop never ends; the result is then \<open>None\<close>.
\<close>

partial_function (option) ErrorClass_Is ::
  "ErrorClass list \<Rightarrow> nat option \<Rightarrow> nat option \<Rightarrow> bool option" where
  "ErrorClass_Is h check p =
     (case check of
        None \<Rightarrow> Some False
      | Some c \<Rightarrow>
          if check = p then Some True
          else (case deref h c of
                  None \<Rightarrow> None
                | Some cls \<Rightarrow> ErrorClass_Is h (parent cls) p))"

declare ErrorClass_Is.simps [code]

text \<open>The store the package starts with: the two roots and the classes built on them.\<close>

definition package_classes :: "ErrorClass list" where
  "package_classes =
     [\<lparr>parent = None, name = ''System Error'', flags = 0\<rparr>,
      \<lparr>parent = None, name = ''Error'', flags = CaptureStack\<rparr>,
      \<lparr>parent = Some HierarchicalError, name = ''Not Implemented Error'',
        flags = CaptureStack OR LogOnCreation\<rparr>,
      \<lparr>parent = Some HierarchicalError, name = ''Programmer Error'',
        flags = CaptureStack OR LogOnCreation\<rparr>,
      \<lparr>parent = Some SystemError, name = ''Syscall Error'', flags = 0\<rparr>,
      \<lparr>parent = Some SystemError, name = ''Errno Error'', flags = 0\<rparr>,
      \<lparr>parent = Some SystemError, name = ''Network Error'', flags = 0\<rparr>,
      \<lparr>parent = Some NetworkError, name = ''Unknown Network Error'', flags = 0\<rparr>,
      \<lparr>parent = Some NetworkError, name = ''Addr Error'', flags = 0\<rparr>,
      \<lparr>parent = Some AddrError, name = ''Invalid Addr Error'', flags = 0\<rparr>,
      \<lparr>parent = Some NetworkError, name = ''Network Op Error'', flags = 0\<rparr>,
      \<lparr>parent = Some NetworkError, name = ''Network Parse Error'', flags = 0\<rparr>,
      \<lparr>parent = Some NetworkError, name = ''DNS Error'', flags = 0\<rparr>,
      \<lparr>parent = Some DNSError, name = ''DNS Config Error'', flags = 0\<rparr>]"

text \<open>
  A store is a forest when every parent link points to a cell allocated earlier, which
  is what the constructors produce: they link a new cell to an existing one.
\<close>

fun links_back :: "nat \<Rightarrow> ErrorClass list \<Rightarrow> bool" where
  "links_back i [] = True"
| "links_back i (c # cs) =
     ((case parent c of None \<Rightarrow> True | Some p \<Rightarrow> p < i) \<and> links_back (Suc i) cs)"

definition forest :: "ErrorClass list \<Rightarrow> bool" where
  "forest h = links_back 0 h"

text \<open>
  The specification's wording of \<^verbatim>\<open>Is\<close>: \<open>a\<close> appears on the chain of parent links
  that leads from \<open>e\<close> to its root.
\<close>

inductive on_parent_chain :: "ErrorClass list \<Rightarrow> nat \<Rightarrow> nat \<Rightarrow> bool" for h :: "ErrorClass list" where
  self: "on_parent_chain h e e"
| link: "deref h e = Some c \<Longrightarrow> parent c = Some p \<Longrightarrow> on_parent_chain h p a
          \<Longrightarrow> on_parent_chain h e a"


section \<open>Go values, panics and the runtime\<close>

text \<open>
  A value of type \<^verbatim>\<open>interface{}\<close> is \<^verbatim>\<open>nil\<close>, a non-error value (an integer, a
  string, or a reference \<open>VRef\<close> to some other object, identified by its address) or a
  non-nil \<^verbatim>\<open>error\<close>.  A non-nil \<^verbatim>\<open>error\<close> is either a plain failure with its message
  (what \<^verbatim>\<open>fmt.Errorf\<close> returns, or a runtime error) or a classified \<^verbatim>\<open>*Error\<close>; a
  value of type \<^verbatim>\<open>error\<close> is a \<open>go_error option\<close>, \<open>None\<close> being \<^verbatim>\<open>nil\<close>.

  \<^verbatim>\<open>errors.go\<close> never writes to an \<^verbatim>\<open>Error\<close> after building it, so an
  \<^verbatim>\<open>*Error\<close> is modelled by its contents, and returning the same pointer is
  returning the same value.  The fields \<open>err\<close>, \<open>class\<close> (written \<open>class'\<close>, the plain
  word being reserved) and \<open>stack\<close> are those of the struct.  Modelled from the spec:
  the fields \<open>exits\<close> (the exit-path record) and \<open>data\<close> (the side-table from keys to
  values), which the struct of \<^verbatim>\<open>errors.go\<close> does not have and package \<^verbatim>\<open>try\<close>
  relies on.
\<close>

datatype val = VNil | VInt int | VStr string | VRef nat | VErr go_error
and go_error = ErrorString string | Classified Error
and Error =
  Error (err: "go_error option") (class': "nat option") (stack: "string option")
    (exits: "nat list") (data: "(nat \<times> val) list")

text \<open>A call either returns or panics with a payload.\<close>

datatype 'a result = Returned 'a | Panicked val

definition nil_dereference :: val where
  "nil_dereference =
     VErr (ErrorString ''runtime error: invalid memory address or nil pointer dereference'')"

definition interface_conversion :: val where
  "interface_conversion = VErr (ErrorString ''interface conversion: error is not *errors.Error'')"

text \<open>
  What the code reads from its environment: the two flags, the text \<^verbatim>\<open>runtime.Stack\<close>
  writes for the running goroutine, the program counter \<^verbatim>\<open>runtime.Callers\<close> reports,
  the text \<^verbatim>\<open>fmt.Sprintf("%v", x)\<close> produces, and the message of the error
  \<^verbatim>\<open>fmt.Errorf\<close> builds from a format (its further arguments, where a call has some, are
  function values, which the model does not represent).

  The last field is the runtime's setting \<^verbatim>\<open>panicnil\<close>, which decides what a
  \<^verbatim>\<open>panic(nil)\<close> leaves for \<^verbatim>\<open>recover()\<close>: \<^verbatim>\<open>nil\<close> where it is on, as in every Go release
  before 1.21 and in later ones under \<^verbatim>\<open>GODEBUG=panicnil=1\<close>, and a
  \<^verbatim>\<open>*runtime.PanicNilError\<close> where it is off, the default of Go 1.21 and later.
\<close>

record runtime =
  stackLogSize :: nat
  stackCaptureSize :: nat
  Stack :: string
  Callers :: nat
  Sprint :: "val \<Rightarrow> string"
  Errorf :: "string \<Rightarrow> string"
  panicnil :: bool

text \<open>The runtime's \<^verbatim>\<open>*PanicNilError\<close>: a plain error, known by its message.\<close>

definition PanicNilError :: go_error where
  "PanicNilError = ErrorString ''panic called with nil argument''"

text \<open>The state the code works on: the class store and the lines written to the log.\<close>

record world =
  classes :: "ErrorClass list"
  logged :: "string list"

section \<open>Package errors: error values\<close>

definition Error_Is :: "ErrorClass list \<Rightarrow> Error \<Rightarrow> nat option \<Rightarrow> bool option" where
  "Error_Is h e ec = ErrorClass_Is h (class' e) ec"

definition TrimRight :: "string \<Rightarrow> string \<Rightarrow> string" where
  "TrimRight s cutset = rev (dropWhile (\<lambda>c. c \<in> set cutset) (rev s))"

definition Contains :: "string \<Rightarrow> string \<Rightarrow> bool" where
  "Contains s substr =
     list_ex (\<lambda>i. take (length substr) (drop i s) = substr) [0 ..< Suc (length s)]"

text \<open>
  \<^verbatim>\<open>strings.Replace(s, old, new, -1)\<close>.  The code calls it with a newline for \<open>old\<close>;
  on an empty \<open>old\<close>, where Go inserts \<open>new\<close> around every character, the model leaves
  \<open>s\<close> as it is.
\<close>

function Replace :: "string \<Rightarrow> string \<Rightarrow> string \<Rightarrow> string" where
  "Replace s old new =
     (if s = [] \<or> old = [] then s
      else if take (length old) s = old then new @ Replace (drop (length old) s) old new
      else hd s # Replace (tl s) old new)"
  by pat_completeness auto
termination
  by (relation "measure (\<lambda>(s, old, new). length s)") (auto simp: neq_Nil_conv)

declare Replace.simps [simp del]

definition newline :: string where
  "newline = [CHR 0x0A]"

definition ErrorClass_String :: "ErrorClass list \<Rightarrow> nat option \<Rightarrow> string result option" where
  "ErrorClass_String h e =
     (case e of
        None \<Rightarrow> Some (Panicked nil_dereference)
      | Some c \<Rightarrow> (case deref h c of None \<Rightarrow> None | Some cls \<Rightarrow> Some (Returned (name cls))))"

text \<open>
  \<^verbatim>\<open>Error.Error\<close>, and the \<^verbatim>\<open>Error\<close> method of any \<^verbatim>\<open>error\<close>, which the former calls on
  its cause.
\<close>

fun error_Error :: "ErrorClass list \<Rightarrow> go_error \<Rightarrow> string result option"
  and Error_Error :: "ErrorClass list \<Rightarrow> Error \<Rightarrow> string result option" where
  "error_Error h (ErrorString m) = Some (Returned m)"
| "error_Error h (Classified e) = Error_Error h e"
| "Error_Error h (Error cause cls stk ex d) =
     (case cause of
        None \<Rightarrow> Some (Panicked nil_dereference)
      | Some x \<Rightarrow>
          (case error_Error h x of
             None \<Rightarrow> None
           | Some (Panicked v) \<Rightarrow> Some (Panicked v)
           | Some (Returned m) \<Rightarrow>
               (case ErrorClass_String h cls of
                  None \<Rightarrow> None
                | Some (Panicked v) \<Rightarrow> Some (Panicked v)
                | Some (Returned cn) \<Rightarrow>
                    (let message = TrimRight m (newline @ '' '');
                         message =
                           (if Contains message newline
                            then cn @ '':'' @ newline @ ''  ''
                                 @ Replace message newline (newline @ ''  '')
                            else cn @ '': '' @ message)
                     in case stk of
                          None \<Rightarrow> Some (Returned message)
                        | Some bytes \<Rightarrow>
                            Some (Returned (message @ newline @ newline @ cn
                                            @ '' backtrace: '' @ bytes))))))"

definition LogWithStack :: "runtime \<Rightarrow> string \<Rightarrow> 'a world_scheme \<Rightarrow> 'a world_scheme" where
  "LogWithStack rt message w =
     (let buf = take (stackLogSize rt) (Stack rt)
      in w\<lparr>logged := logged w @ [message @ newline @ buf]\<rparr>)"

text \<open>The loop of \<^verbatim>\<open>Wrap\<close> over the exemption classes.\<close>

fun Is_any :: "ErrorClass list \<Rightarrow> Error \<Rightarrow> nat option list \<Rightarrow> bool option" where
  "Is_any h ec [] = Some False"
| "Is_any h ec (c # cs) =
     (case Error_Is h ec c of
        None \<Rightarrow> None
      | Some b \<Rightarrow> if b then Some True else Is_any h ec cs)"

definition Wrap ::
  "runtime \<Rightarrow> nat option \<Rightarrow> go_error option \<Rightarrow> nat option list \<Rightarrow> 'a world_scheme
     \<Rightarrow> (go_error option result \<times> 'a world_scheme) option" where
  "Wrap rt e cause cs w =
     (case cause of
        None \<Rightarrow> Some (Returned None, w)
      | Some x \<Rightarrow>
          (case (case x of
                   Classified ec \<Rightarrow>
                     (case Error_Is (classes w) ec e of
                        None \<Rightarrow> None
                      | Some b \<Rightarrow> if b then Some True else Is_any (classes w) ec cs)
                 | ErrorString m \<Rightarrow> Some False) of
             None \<Rightarrow> None
           | Some True \<Rightarrow> Some (Returned cause, w)
           | Some False \<Rightarrow>
               (let rv = Error cause e None [] []
                in case e of
                     None \<Rightarrow> Some (Panicked nil_dereference, w)
                   | Some c \<Rightarrow>
                       (case deref (classes w) c of
                          None \<Rightarrow> None
                        | Some cls \<Rightarrow>
                            (let rv = (if flags cls AND CaptureStack > 0
                                       then Error cause e
                                              (Some (take (stackCaptureSize rt) (Stack rt))) [] []
                                       else rv)
                             in if flags cls AND LogOnCreation > 0
                                then (case Error_Error (classes w) rv of
                                        None \<Rightarrow> None
                                      | Some (Panicked v) \<Rightarrow> Some (Panicked v, w)
                                      | Some (Returned s) \<Rightarrow>
                                          Some (Returned (Some (Classified rv)),
                                                LogWithStack rt s w))
                                else Some (Returned (Some (Classified rv)), w))))))"


definition ErrorClass_New ::
  "runtime \<Rightarrow> nat option \<Rightarrow> string \<Rightarrow> 'a world_scheme
     \<Rightarrow> (go_error option result \<times> 'a world_scheme) option" where
  \<comment> \<open>\<^verbatim>\<open>e.Wrap(fmt.Errorf(format, args...))\<close>; \<open>message\<close> is the text \<^verbatim>\<open>fmt.Errorf\<close> built.\<close>
  "ErrorClass_New rt e message w = Wrap rt e (Some (ErrorString message)) [] w"

subsection \<open>The functions of package errors that errors.go does not define\<close>

definition SetData :: "nat \<Rightarrow> val \<Rightarrow> Error \<Rightarrow> Error" where
  \<comment> \<open>Modelled from the spec: \<^verbatim>\<open>errors.SetData(key, value)\<close> is missing; the spec calls it a
      producer usable at wrap time that attaches \<open>value\<close> under \<open>key\<close> in the side-table.\<close>
  "SetData k v e = Error (err e) (class' e) (stack e) (exits e) ((k, v) # data e)"

definition GetData :: "go_error option \<Rightarrow> nat \<Rightarrow> val" where
  \<comment> \<open>Modelled from the spec: \<^verbatim>\<open>errors.GetData(err, key)\<close> is missing; the spec gives it
      as the value stored under \<open>key\<close>, or absent (\<^verbatim>\<open>nil\<close>).\<close>
  "GetData e k =
     (case e of
        Some (Classified x) \<Rightarrow> (case map_of (data x) k of None \<Rightarrow> VNil | Some v \<Rightarrow> v)
      | _ \<Rightarrow> VNil)"

definition RecordBefore :: "runtime \<Rightarrow> Error \<Rightarrow> nat \<Rightarrow> Error" where
  \<comment> \<open>Modelled from the spec: \<^verbatim>\<open>errors.RecordBefore(err, depth)\<close> is missing; the spec has it
      append a record of the current location to the exit path, changing neither class
      nor cause.\<close>
  "RecordBefore rt e depth = Error (err e) (class' e) (stack e) (exits e @ [Callers rt]) (data e)"

definition ErrorClass_NewWith ::
  "runtime \<Rightarrow> nat option \<Rightarrow> string \<Rightarrow> (Error \<Rightarrow> Error) list \<Rightarrow> 'a world_scheme
     \<Rightarrow> (go_error option result \<times> 'a world_scheme) option" where
  \<comment> \<open>Modelled from the spec: the method \<^verbatim>\<open>NewWith(message, options...)\<close> is missing; the
      spec has a class build a new Error at the wrap boundary, the options filling its
      side-table.\<close>
  "ErrorClass_NewWith rt e message options w =
     (case Wrap rt e (Some (ErrorString message)) [] w of
        None \<Rightarrow> None
      | Some (Panicked v, w') \<Rightarrow> Some (Panicked v, w')
      | Some (Returned r, w') \<Rightarrow>
          Some (Returned (case r of
                            Some (Classified x) \<Rightarrow> Some (Classified (fold (\<lambda>opt. opt) options x))
                          | _ \<Rightarrow> r), w'))"

section \<open>Package try\<close>

text \<open>
  The package-level variables of package \<^verbatim>\<open>try\<close>.  Modelled from the spec:
  \<^verbatim>\<open>errors.NewClass(name)\<close> and \<^verbatim>\<open>errors.GenSym()\<close> are missing; the spec has the plain
  constructor default to the stack-capturing root and keys be unique, so the class is
  the one \<open>New\<close> builds under \<open>HierarchicalError\<close>, at the next free address, and the
  key is the first one issued.
\<close>

definition UnknownPanicError :: nat where "UnknownPanicError = 14"

definition OriginalErrorKey :: nat where "OriginalErrorKey = 0"

definition try_classes :: "ErrorClass list" where
  "try_classes =
     package_classes
     @ [\<lparr>parent = Some HierarchicalError, name = ''Unknown Error'', flags = CaptureStack\<rparr>]"

text \<open>
  A \<^verbatim>\<open>func()\<close> of the caller's changes the state and returns or panics.  A function
  value may be \<^verbatim>\<open>nil\<close>; calling it panics.
\<close>

type_synonym 'a proc = "'a world_scheme \<Rightarrow> unit result \<times> 'a world_scheme"

definition call :: "'a proc option \<Rightarrow> 'a proc" where
  "call f w = (case f of None \<Rightarrow> (Panicked nil_dereference, w) | Some g \<Rightarrow> g w)"

definition call1 :: "('x \<Rightarrow> 'a proc) option \<Rightarrow> 'x \<Rightarrow> 'a proc" where
  "call1 f x w = (case f of None \<Rightarrow> (Panicked nil_dereference, w) | Some g \<Rightarrow> g x w)"

record 'a check =
  match :: "nat option"
  handler :: "(Error \<Rightarrow> 'a proc) option"
  anyhandler :: "(go_error option \<Rightarrow> 'a proc) option"

record 'a Plan =
  main :: "'a proc option"
  catch :: "'a check list"
  "finally" :: "'a proc"

definition Do :: "'a proc option \<Rightarrow> 'a Plan" where
  "Do f = \<lparr>main = f, catch = [], finally = (\<lambda>w. (Returned (), w))\<rparr>"

definition Catch :: "'a Plan \<Rightarrow> nat option \<Rightarrow> (Error \<Rightarrow> 'a proc) option \<Rightarrow> 'a Plan" where
  "Catch p kind h =
     p\<lparr>catch := catch p @ [\<lparr>match = kind, handler = h, anyhandler = None\<rparr>]\<rparr>"

definition CatchAll :: "'a Plan \<Rightarrow> (go_error option \<Rightarrow> 'a proc) option \<Rightarrow> 'a Plan" where
  "CatchAll p h =
     p\<lparr>catch := catch p @ [\<lparr>match = None, handler = None, anyhandler = h\<rparr>]\<rparr>"

definition Finally :: "'a Plan \<Rightarrow> 'a proc option \<Rightarrow> 'a Plan" where
  "Finally p f =
     (let f2 = finally p
      in p\<lparr>finally := (\<lambda>w. case call f w of
                                (Panicked v, w') \<Rightarrow> (Panicked v, w')
                              | (Returned u, w') \<Rightarrow> f2 w')\<rparr>)"

text \<open>
  \<^verbatim>\<open>recover()\<close> in the deferred function of \<^verbatim>\<open>Done\<close>: the payload of the panic that
  ended \<^verbatim>\<open>p.main()\<close>, and \<^verbatim>\<open>nil\<close> when it returned.  For a \<^verbatim>\<open>panic(nil)\<close> it gives
  \<^verbatim>\<open>nil\<close> as well where the runtime's \<^verbatim>\<open>panicnil\<close> is on, and the runtime's
  \<^verbatim>\<open>*PanicNilError\<close> where it is off.  (The runtime makes the replacement when
  \<^verbatim>\<open>panic\<close> is called; \<open>Done\<close> reads the payload of the block here and nowhere else.)
\<close>

definition recover :: "runtime \<Rightarrow> unit result \<Rightarrow> val" where
  "recover rt out =
     (case out of
        Returned u \<Rightarrow> VNil
      | Panicked v \<Rightarrow> if v = VNil \<and> \<not> panicnil rt then VErr PanicNilError else v)"

definition iface :: "go_error option \<Rightarrow> val" where
  "iface e = (case e of None \<Rightarrow> VNil | Some x \<Rightarrow> VErr x)"

text \<open>
  The inner deferred function of \<^verbatim>\<open>Done\<close>.  It runs when the outer one ends, by
  \<^verbatim>\<open>return\<close> or by a panic of a handler; \<open>r\<close> is how the outer one ended.
\<close>

definition Done_deferred ::
  "'a Plan \<Rightarrow> bool \<Rightarrow> val \<Rightarrow> unit result \<times> 'a world_scheme \<Rightarrow> unit result \<times> 'a world_scheme" where
  "Done_deferred p consumed rec r =
     (case r of (out, w) \<Rightarrow>
        (case finally p w of
           (Panicked v, w') \<Rightarrow> (Panicked v, w')
         | (Returned u, w') \<Rightarrow> if \<not> consumed then (Panicked rec, w') else (out, w')))"

text \<open>
  The three loops over \<^verbatim>\<open>p.catch\<close>.  Each gives the value of \<^verbatim>\<open>consumed\<close> and how
  the outer deferred function ended.
\<close>

fun Done_Error ::
  "Error \<Rightarrow> 'a check list \<Rightarrow> 'a world_scheme \<Rightarrow> (bool \<times> unit result \<times> 'a world_scheme) option" where
  "Done_Error e [] w = Some (False, Returned (), w)"
| "Done_Error e (c # cs) w =
     (if match c = None then Some (True, call1 (anyhandler c) (Some (Classified e)) w)
      else (case Error_Is (classes w) e (match c) of
              None \<Rightarrow> None
            | Some b \<Rightarrow>
                if b then Some (True, call1 (handler c) e w) else Done_Error e cs w))"

fun Done_error ::
  "go_error \<Rightarrow> 'a check list \<Rightarrow> 'a world_scheme \<Rightarrow> bool \<times> unit result \<times> 'a world_scheme" where
  "Done_error e [] w = (False, Returned (), w)"
| "Done_error e (c # cs) w =
     (if match c = None then (True, call1 (anyhandler c) (Some e) w)
      else Done_error e cs w)"

fun Done_default ::
  "runtime \<Rightarrow> val \<Rightarrow> 'a check list \<Rightarrow> 'a world_scheme
     \<Rightarrow> (bool \<times> unit result \<times> 'a world_scheme) option" where
  "Done_default rt rec [] w = Some (False, Returned (), w)"
| "Done_default rt rec (c # cs) w =
     (if match c = None then
        (let msg = Sprint rt rec
         in case ErrorClass_NewWith rt (Some UnknownPanicError) msg
                   [SetData OriginalErrorKey rec] w of
              None \<Rightarrow> None
            | Some (Panicked v, w') \<Rightarrow> Some (True, Panicked v, w')
            | Some (Returned pan, w') \<Rightarrow> Some (True, call1 (anyhandler c) pan w'))
      else (case ErrorClass_Is (classes w) (Some UnknownPanicError) (match c) of
              None \<Rightarrow> None
            | Some b \<Rightarrow>
                if b then
                  (let msg = Sprint rt rec
                   in case ErrorClass_NewWith rt (Some UnknownPanicError) msg
                             [SetData OriginalErrorKey rec] w of
                        None \<Rightarrow> None
                      | Some (Panicked v, w') \<Rightarrow> Some (True, Panicked v, w')
                      | Some (Returned pan, w') \<Rightarrow>
                          (case pan of
                             Some (Classified x) \<Rightarrow> Some (True, call1 (handler c) x w')
                           | _ \<Rightarrow> Some (True, Panicked interface_conversion, w')))
                else Done_default rt rec cs w))"

definition Done ::
  "runtime \<Rightarrow> 'a Plan \<Rightarrow> 'a world_scheme \<Rightarrow> (unit result \<times> 'a world_scheme) option" where
  "Done rt p w =
     (case call (main p) w of (out, w1) \<Rightarrow>
        (let rec = recover rt out
         in case rec of
              VNil \<Rightarrow> Some (Done_deferred p True rec (Returned (), w1))
            | VErr (Classified e) \<Rightarrow>
                (let e = RecordBefore rt e 3
                 in case Done_Error e (catch p) w1 of
                      None \<Rightarrow> None
                    | Some (consumed, r) \<Rightarrow>
                        Some (Done_deferred p consumed (VErr (Classified e)) r))
            | VErr (ErrorString m) \<Rightarrow>
                (case Done_error (ErrorString m) (catch p) w1 of
                   (consumed, r) \<Rightarrow> Some (Done_deferred p consumed rec r))
            | _ \<Rightarrow>
                (case Done_default rt rec (catch p) w1 of
                   None \<Rightarrow> None
                 | Some (consumed, r) \<Rightarrow> Some (Done_deferred p consumed rec r))))"

definition OriginalError :: "go_error option \<Rightarrow> val" where
  "OriginalError e =
     (let d = GetData e OriginalErrorKey in if d = VNil then iface e else d)"

definition Repanic ::
  "runtime \<Rightarrow> go_error option \<Rightarrow> 'a world_scheme \<Rightarrow> (unit result \<times> 'a world_scheme) option" where
  "Repanic rt e w =
     (case e of
        Some (Classified wrapper) \<Rightarrow>
          (case Error_Is (classes w) wrapper (Some UnknownPanicError) of
             None \<Rightarrow> None
           | Some b \<Rightarrow>
               if \<not> b then Some (Panicked (iface e), w)
               else (let d = GetData e OriginalErrorKey
                     in if d = VNil then
                          (case ErrorClass_New rt (Some ProgrammerError)
                                  (Errorf rt ''misuse of try internals'') w of
                             None \<Rightarrow> None
                           | Some (Panicked v, w') \<Rightarrow> Some (Panicked v, w')
                           | Some (Returned x, w') \<Rightarrow> Some (Panicked (iface x), w'))
                        else Some (Panicked d, w)))
      | _ \<Rightarrow> Some (Panicked (iface e), w))"


section \<open>The fixtures of the package's tests\<close>

text \<open>
  \<^verbatim>\<open>try_test.go\<close> declares four classes after those of the packages, and its examples
  print to standard output, which the state of the examples holds beside the class
  store and the log.
\<close>

definition FruitError :: nat where "FruitError = 15"
definition AppleError :: nat where "AppleError = 16"
definition GrapeError :: nat where "GrapeError = 17"
definition RockError :: nat where "RockError = 18"

definition test_classes :: "ErrorClass list" where
  "test_classes =
     try_classes
     @ [\<lparr>parent = Some HierarchicalError, name = ''fruit'', flags = CaptureStack\<rparr>,
        \<lparr>parent = Some FruitError, name = ''apple'', flags = CaptureStack\<rparr>,
        \<lparr>parent = Some FruitError, name = ''grape'', flags = CaptureStack\<rparr>,
        \<lparr>parent = Some HierarchicalError, name = ''rock'', flags = CaptureStack\<rparr>]"

record test_world = world +
  stdout :: "string list"

definition Println :: "string \<Rightarrow> test_world \<Rightarrow> unit result \<times> test_world" where
  "Println s w = (Returned (), w\<lparr>stdout := stdout w @ [s]\<rparr>)"

definition panic :: "val \<Rightarrow> test_world \<Rightarrow> unit result \<times> test_world" where
  "panic v w = (Panicked v, w)"

definition test_runtime :: runtime where
  "test_runtime =
     \<lparr>stackLogSize = 4096, stackCaptureSize = 2048, Stack = ''goroutine 1 [running]:'',
      Callers = 0, Sprint = (\<lambda>v. case v of VStr s \<Rightarrow> s | _ \<Rightarrow> ''3''), Errorf = (\<lambda>f. f),
      panicnil = False\<rparr>"

definition test_start :: test_world where
  "test_start = \<lparr>classes = test_classes, logged = [], stdout = []\<rparr>"

text \<open>The error \<^verbatim>\<open>AppleError.New("emsg")\<close> of the examples.\<close>

definition apple_emsg :: Error where
  "apple_emsg =
     Error (Some (ErrorString ''emsg'')) (Some AppleError) (Some ''goroutine 1 [running]:'') [] []"

text \<open>
  A block that prints and then panics, and the plan of the examples that catch by type,
  with the handler of the superclass registered before that of the subclass.
\<close>

definition function_called :: "val \<Rightarrow> test_world \<Rightarrow> unit result \<times> test_world" where
  "function_called v w = panic v (snd (Println ''function called'' w))"

definition fruit_plan :: "unit test_world_ext Plan" where
  "fruit_plan =
     CatchAll
       (Catch
          (Catch
             (Finally (Do (Some (function_called (VErr (Classified apple_emsg)))))
                (Some (Println ''finally block called'')))
             (Some FruitError) (Some (\<lambda>e. Println ''fruit handler called'')))
          (Some AppleError) (Some (\<lambda>e. Println ''apple handler called'')))
       (Some (\<lambda>e. Println ''catch wildcard called''))"

text \<open>The same plan around a block that panics with another payload.\<close>

definition catching_plan :: "val \<Rightarrow> unit test_world_ext Plan" where
  "catching_plan v = fruit_plan\<lparr>main := Some (function_called v)\<rparr>"

text \<open>The plan of the examples that register a cleanup and no handler.\<close>

definition finally_plan :: "val \<Rightarrow> unit test_world_ext Plan" where
  "finally_plan v =
     Finally (Do (Some (function_called v))) (Some (Println ''finally block called''))"

text \<open>The plan of \<^verbatim>\<open>ExampleCatchingUnknownErrorsByType\<close>.\<close>

definition unknown_plan :: "val \<Rightarrow> unit test_world_ext Plan" where
  "unknown_plan v =
     CatchAll
       (Catch
          (Catch
             (Finally (Do (Some (function_called v))) (Some (Println ''finally block called'')))
             (Some RockError) (Some (\<lambda>e. Println ''catch a rock'')))
          (Some UnknownPanicError)
          (Some (\<lambda>e. Println (''catch UnknownPanicError called: ''
                              @ Sprint test_runtime
                                  (GetData (Some (Classified e)) OriginalErrorKey)))))
       (Some (\<lambda>e. Println ''catch wildcard called''))"

text \<open>The inner plans of \<^verbatim>\<open>ExampleCrashInCatch\<close> and \<^verbatim>\<open>ExampleCrashInFinally\<close>.\<close>

definition crash_in_catch_plan :: "unit test_world_ext Plan" where
  "crash_in_catch_plan =
     CatchAll
       (Finally (Do (Some (function_called (VErr (ErrorString ''any error'')))))
          (Some (Println ''finally block called'')))
       (Some (\<lambda>e w. panic (VErr (ErrorString ''zomg''))
                       (snd (Println ''catch wildcard called'' w))))"

definition crash_in_finally_plan :: "unit test_world_ext Plan" where
  "crash_in_finally_plan =
     CatchAll
       (Finally (Do (Some (Println ''function called'')))
          (Some (\<lambda>w. panic (VErr (ErrorString ''zomg''))
                       (snd (Println ''finally block called'' w)))))
       (Some (\<lambda>e. Println ''catch wildcard called''))"

text \<open>
  The first of them with a second cleanup registered after its own; no example
  registers more than one.
\<close>

definition two_cleanups_plan :: "unit test_world_ext Plan" where
  "two_cleanups_plan = Finally crash_in_catch_plan (Some (Println ''second cleanup called''))"

definition finally_called :: "test_world \<Rightarrow> nat" where
  "finally_called w = length (filter (\<lambda>s. s = ''finally block called'') (stdout w))"

definition second_called :: "test_world \<Rightarrow> nat" where
  "second_called w = length (filter (\<lambda>s. s = ''second cleanup called'') (stdout w))"

text \<open>
  The Error that stands for the object of \<^verbatim>\<open>ExampleObjectRepanicOriginal\<close>, at address
  7, once \<^verbatim>\<open>Done\<close> has wrapped it, and an Error of the same class that holds nothing.
\<close>

definition empty_wrapper :: Error where
  "empty_wrapper =
     Error (Some (ErrorString ''{}'')) (Some UnknownPanicError) (Some ''goroutine 1 [running]:'')
       [] []"

definition wrapped_object :: Error where
  "wrapped_object = SetData OriginalErrorKey (VRef 7) empty_wrapper"

definition handlers_called :: "test_world \<Rightarrow> nat" where
  "handlers_called w =
     length (filter (\<lambda>s. s \<noteq> ''function called'' \<and> s \<noteq> ''finally block called'') (stdout w))"

section \<open>The specification's wording, for comparison with the code\<close>

text \<open>
  The rendering of a multi-line message: the lines of the message, each moved two
  spaces to the right, one below the other.
\<close>

fun split_lines :: "string \<Rightarrow> string list" where
  "split_lines [] = [[]]"
| "split_lines (c # cs) =
     (if c = CHR 0x0A then [] # split_lines cs
      else (case split_lines cs of [] \<Rightarrow> [[c]] | l # ls \<Rightarrow> (c # l) # ls))"

fun join_lines :: "string list \<Rightarrow> string" where
  "join_lines [] = []"
| "join_lines [l] = l"
| "join_lines (l # l' # ls) = l @ newline @ join_lines (l' # ls)"

definition indent_lines :: "string \<Rightarrow> string" where
  "indent_lines s = join_lines (map (\<lambda>l. ''  '' @ l) (split_lines s))"

text \<open>
  The dispatch of a fault: the entry selected is the first one, in registration order,
  that is the wildcard or whose class the class of the fault \<open>Is\<close>; its handler is
  invoked with the Error (the wildcard's handler takes it as an \<^verbatim>\<open>error\<close>).
\<close>

definition entry_matches :: "ErrorClass list \<Rightarrow> nat option \<Rightarrow> 'a check \<Rightarrow> bool" where
  "entry_matches h cls c = (match c = None \<or> ErrorClass_Is h cls (match c) = Some True)"

definition invoke :: "'a check \<Rightarrow> Error \<Rightarrow> 'a proc" where
  "invoke c e w =
     (if match c = None then call1 (anyhandler c) (Some (Classified e)) w
      else call1 (handler c) e w)"

text \<open>
  The composed cleanup: the cleanups run one after the other, each in the state the one
  before it left and only if that one returned, and then what was there before them.
  The list is in the order of the calls, the most recently registered cleanup first.
\<close>

fun compose_cleanups :: "'a proc option list \<Rightarrow> 'a proc \<Rightarrow> 'a proc" where
  "compose_cleanups [] k w = k w"
| "compose_cleanups (f # fs) k w =
     (case call f w of
        (Panicked v, w') \<Rightarrow> (Panicked v, w')
      | (Returned u, w') \<Rightarrow> compose_cleanups fs k w')"

text \<open>
  An outcome \<open>hr\<close> is that of a handler call in the state \<open>x\<close> when some entry's
  handler, the one its kind designates, ends so on some argument.
\<close>

definition handler_called ::
  "'a check list \<Rightarrow> 'a world_scheme \<Rightarrow> unit result \<times> 'a world_scheme \<Rightarrow> bool" where
  "handler_called cs x hr =
     (\<exists>c \<in> set cs. (match c = None \<and> (\<exists>a. hr = call1 (anyhandler c) a x))
                  \<or> (match c \<noteq> None \<and> (\<exists>a. hr = call1 (handler c) a x)))"

section \<open>The class hierarchy\<close>

lemma deref_Some_iff: "deref h r = Some c \<longleftrightarrow> r < length h \<and> h ! r = c"
  by (auto simp: deref_def)

lemma links_back_nth:
  "links_back i h \<Longrightarrow> j < length h \<Longrightarrow> parent (h ! j) = Some p \<Longrightarrow> p < i + j"
proof (induction h arbitrary: i j)
  case Nil
  then show ?case by simp
next
  case (Cons c cs)
  show ?case
  proof (cases j)
    case 0
    with Cons.prems show ?thesis by simp
  next
    case (Suc k)
    with Cons.prems have "links_back (Suc i) cs" "k < length cs" "parent (cs ! k) = Some p"
      by simp_all
    from Cons.IH[OF this] Suc show ?thesis by simp
  qed
qed

lemma forest_parent_less:
  "forest h \<Longrightarrow> deref h e = Some c \<Longrightarrow> parent c = Some p \<Longrightarrow> p < e"
  using links_back_nth[of 0 h e p] by (auto simp: forest_def deref_Some_iff)

lemma Is_nil_receiver: "ErrorClass_Is h None a = Some False"
  by (simp add: ErrorClass_Is.simps)

lemma Is_self: "ErrorClass_Is h (Some e) (Some e) = Some True"
  by (simp add: ErrorClass_Is.simps)

lemma Is_step:
  "Some e \<noteq> a \<Longrightarrow> deref h e = Some c \<Longrightarrow> ErrorClass_Is h (Some e) a = ErrorClass_Is h (parent c) a"
  by (subst ErrorClass_Is.simps) simp

lemma chain_step:
  "e \<noteq> a \<Longrightarrow> deref h e = Some c \<Longrightarrow>
   on_parent_chain h e a \<longleftrightarrow> (\<exists>p. parent c = Some p \<and> on_parent_chain h p a)"
  by (auto elim: on_parent_chain.cases intro: on_parent_chain.link)

lemma Is_chain:
  assumes "forest h"
  shows "e < length h \<Longrightarrow> ErrorClass_Is h (Some e) (Some a) = Some (on_parent_chain h e a)"
proof (induction e rule: less_induct)
  case (less e)
  then obtain c where c: "deref h e = Some c" by (auto simp: deref_def)
  show ?case
  proof (cases "e = a")
    case True
    then show ?thesis by (simp add: Is_self on_parent_chain.self)
  next
    case False
    show ?thesis
    proof (cases "parent c")
      case None
      with False c show ?thesis
        by (simp add: Is_step Is_nil_receiver chain_step)
    next
      case (Some p)
      with assms c have "p < e" by (rule_tac forest_parent_less)
      with less have "ErrorClass_Is h (Some p) (Some a) = Some (on_parent_chain h p a)" by simp
      with False c Some show ?thesis by (simp add: Is_step chain_step)
    qed
  qed
qed

lemma Is_nil_argument:
  assumes "forest h"
  shows "e < length h \<Longrightarrow> ErrorClass_Is h (Some e) None = Some False"
proof (induction e rule: less_induct)
  case (less e)
  then obtain c where c: "deref h e = Some c" by (auto simp: deref_def)
  show ?case
  proof (cases "parent c")
    case None
    with c show ?thesis by (simp add: Is_step Is_nil_receiver)
  next
    case (Some p)
    with assms c have "p < e" by (rule_tac forest_parent_less)
    with less have "ErrorClass_Is h (Some p) None = Some False" by simp
    with c Some show ?thesis by (simp add: Is_step)
  qed
qed

lemma Is_total:
  "forest h \<Longrightarrow> (case e of None \<Rightarrow> True | Some r \<Rightarrow> r < length h) \<Longrightarrow> \<exists>b. ErrorClass_Is h e a = Some b"
  by (cases e; cases a) (auto simp: Is_nil_receiver Is_chain Is_nil_argument)

lemma chain_valid: "on_parent_chain h e a \<Longrightarrow> forest h \<Longrightarrow> a \<le> e"
  by (induction rule: on_parent_chain.induct) (auto dest: forest_parent_less)

lemma Is_rename:
  assumes "forest h"
  shows "e < length h \<Longrightarrow>
    ErrorClass_Is (map (\<lambda>c. c\<lparr>name := f c\<rparr>) h) (Some e) a = ErrorClass_Is h (Some e) a"
proof (induction e rule: less_induct)
  case (less e)
  let ?h' = "map (\<lambda>c. c\<lparr>name := f c\<rparr>) h"
  from less.prems obtain c where c: "deref h e = Some c" by (auto simp: deref_def)
  with less.prems have c': "deref ?h' e = Some (c\<lparr>name := f c\<rparr>)" by (auto simp: deref_def)
  show ?case
  proof (cases "Some e = a")
    case True
    then show ?thesis by (auto simp: Is_self)
  next
    case False
    show ?thesis
    proof (cases "parent c")
      case None
      with False c c' show ?thesis by (simp add: Is_step Is_nil_receiver)
    next
      case (Some p)
      with assms c have "p < e" by (rule_tac forest_parent_less)
      with less have "ErrorClass_Is ?h' (Some p) a = ErrorClass_Is h (Some p) a" by simp
      with False c c' Some show ?thesis by (simp add: Is_step)
    qed
  qed
qed


lemmas class_addresses =
  SystemError_def HierarchicalError_def NotImplementedError_def ProgrammerError_def
  SyscallError_def ErrnoError_def NetworkError_def UnknownNetworkError_def AddrError_def
  InvalidAddrError_def NetOpError_def NetParseError_def DNSError_def DNSConfigError_def
  UnknownPanicError_def FruitError_def AppleError_def GrapeError_def RockError_def

lemma length_test_classes: "length test_classes = 19"
  by (simp add: test_classes_def try_classes_def package_classes_def)

lemma forest_test_classes: "forest test_classes"
  by (simp add: forest_def test_classes_def try_classes_def package_classes_def class_addresses)

lemma deref_test_classes:
  "deref test_classes HierarchicalError = Some \<lparr>parent = None, name = ''Error'', flags = CaptureStack\<rparr>"
  "deref test_classes ProgrammerError =
     Some \<lparr>parent = Some HierarchicalError, name = ''Programmer Error'',
           flags = CaptureStack OR LogOnCreation\<rparr>"
  "deref test_classes UnknownPanicError =
     Some \<lparr>parent = Some HierarchicalError, name = ''Unknown Error'', flags = CaptureStack\<rparr>"
  "deref test_classes FruitError =
     Some \<lparr>parent = Some HierarchicalError, name = ''fruit'', flags = CaptureStack\<rparr>"
  "deref test_classes AppleError =
     Some \<lparr>parent = Some FruitError, name = ''apple'', flags = CaptureStack\<rparr>"
  "deref test_classes GrapeError =
     Some \<lparr>parent = Some FruitError, name = ''grape'', flags = CaptureStack\<rparr>"
  "deref test_classes RockError =
     Some \<lparr>parent = Some HierarchicalError, name = ''rock'', flags = CaptureStack\<rparr>"
  by (simp_all add: deref_def test_classes_def try_classes_def package_classes_def class_addresses)

text \<open>
  C7.  On a forest, \<open>e.Is(a)\<close> returns, and returns true exactly when \<open>a\<close> is on the
  chain of parent links from \<open>e\<close> to its root; the names of the classes play no part
  (renaming every class leaves the answer as it was), and with a nil receiver or a nil
  argument the answer is false.  Every class \<open>Is\<close> itself.  When
  the parent of \<open>C\<close> is \<open>B\<close> and the parent of \<open>B\<close> is \<open>A\<close>, then \<open>C.Is(A)\<close>,
  \<open>C.Is(B)\<close> and \<open>C.Is(C)\<close> hold and \<open>A.Is(C)\<close> does not.
\<close>

theorem ErrorClass_Is_parent_chain:
  assumes "forest h"
  shows "(e < length h \<longrightarrow>
            ErrorClass_Is h (Some e) (Some a) = Some (on_parent_chain h e a)
          \<and> ErrorClass_Is (map (\<lambda>c. c\<lparr>name := f c\<rparr>) h) (Some e) (Some a)
              = ErrorClass_Is h (Some e) (Some a)
          \<and> ErrorClass_Is h (Some e) None = Some False)
       \<and> ErrorClass_Is h None (Some a) = Some False
       \<and> ErrorClass_Is h (Some e) (Some e) = Some True
       \<and> (deref h B = Some cB \<and> parent cB = Some A \<and> deref h C = Some cC \<and> parent cC = Some B \<longrightarrow>
            ErrorClass_Is h (Some C) (Some A) = Some True
          \<and> ErrorClass_Is h (Some C) (Some B) = Some True
          \<and> ErrorClass_Is h (Some C) (Some C) = Some True
          \<and> ErrorClass_Is h (Some A) (Some C) = Some False)"
proof (intro conjI impI)
  assume "e < length h"
  with assms show "ErrorClass_Is h (Some e) (Some a) = Some (on_parent_chain h e a)"
    by (rule Is_chain)
next
  assume "e < length h"
  with assms show "ErrorClass_Is (map (\<lambda>c. c\<lparr>name := f c\<rparr>) h) (Some e) (Some a)
              = ErrorClass_Is h (Some e) (Some a)"
    by (rule Is_rename)
next
  assume "e < length h"
  with assms show "ErrorClass_Is h (Some e) None = Some False"
    by (rule Is_nil_argument)
next
  show "ErrorClass_Is h None (Some a) = Some False" by (rule Is_nil_receiver)
next
  show "ErrorClass_Is h (Some e) (Some e) = Some True" by (rule Is_self)
next
  assume abc: "deref h B = Some cB \<and> parent cB = Some A \<and> deref h C = Some cC \<and> parent cC = Some B"
  have lt: "A < B" "B < C" "C < length h"
    using abc forest_parent_less[OF assms, of B cB A] forest_parent_less[OF assms, of C cC B]
    by (auto simp: deref_Some_iff)
  have BA: "on_parent_chain h B A"
    using abc on_parent_chain.link[of h B cB A A] by (simp add: on_parent_chain.self)
  have CB: "on_parent_chain h C B"
    using abc on_parent_chain.link[of h C cC B B] by (simp add: on_parent_chain.self)
  have CA: "on_parent_chain h C A"
    using abc on_parent_chain.link[of h C cC B A] BA by simp
  show "ErrorClass_Is h (Some C) (Some A) = Some True"
    using Is_chain[OF assms lt(3), of A] CA by simp
  show "ErrorClass_Is h (Some C) (Some B) = Some True"
    using Is_chain[OF assms lt(3), of B] CB by simp
  show "ErrorClass_Is h (Some C) (Some C) = Some True" by (rule Is_self)
  have "\<not> on_parent_chain h A C"
    using chain_valid[OF _ assms, of A C] lt by auto
  moreover have "A < length h" using lt by simp
  ultimately show "ErrorClass_Is h (Some A) (Some C) = Some False"
    using Is_chain[OF assms, of A C] by simp
qed

theorem ErrorClass_Is_parent_chain_witness:
  "forest test_classes
   \<and> ErrorClass_Is test_classes (Some AppleError) (Some HierarchicalError) = Some True
   \<and> ErrorClass_Is test_classes (Some AppleError) (Some FruitError) = Some True
   \<and> ErrorClass_Is test_classes (Some AppleError) (Some AppleError) = Some True
   \<and> ErrorClass_Is test_classes (Some HierarchicalError) (Some AppleError) = Some False
   \<and> ErrorClass_Is test_classes (Some AppleError) (Some RockError) = Some False
   \<and> ErrorClass_Is (map (\<lambda>c. c\<lparr>name := ''fruit''\<rparr>) test_classes) (Some AppleError) (Some RockError)
       = Some False"
proof -
  have l: "AppleError < length test_classes"
    by (simp add: length_test_classes AppleError_def)
  have r: "ErrorClass_Is test_classes (Some AppleError) (Some RockError) = Some False"
    by (simp add: ErrorClass_Is.simps deref_def test_classes_def try_classes_def
          package_classes_def class_addresses)
  from ErrorClass_Is_parent_chain[OF forest_test_classes, where e = AppleError and a = RockError
      and f = "\<lambda>c. ''fruit''" and B = FruitError and C = AppleError and A = HierarchicalError
      and cB = "\<lparr>parent = Some HierarchicalError, name = ''fruit'', flags = CaptureStack\<rparr>"
      and cC = "\<lparr>parent = Some FruitError, name = ''apple'', flags = CaptureStack\<rparr>"]
    l r forest_test_classes
  show ?thesis by (simp add: deref_test_classes)
qed

lemma same_name_is_not_same_class:
  "ErrorClass_Is (test_classes @ [\<lparr>parent = Some HierarchicalError, name = ''fruit'', flags = CaptureStack\<rparr>])
     (Some AppleError) (Some 19) = Some False"
  by (simp add: ErrorClass_Is.simps deref_def test_classes_def try_classes_def package_classes_def
        class_addresses)

section \<open>The constructors\<close>

lemma deref_alloc_old: "deref h r = Some c \<Longrightarrow> deref (snd (alloc h x)) r = Some c"
  by (auto simp: deref_def alloc_def nth_append)

lemma default_parent:
  "(if ec = None then Some HierarchicalError else ec)
     = Some (case ec of None \<Rightarrow> HierarchicalError | Some q \<Rightarrow> q)"
  by (cases ec) simp_all

text \<open>
  C8.  With the parent allocated (the stack-capturing root when \<open>ec\<close> is nil), each of
  the four constructors returns: it appends one cell, whose address it returns and whose
  parent is \<open>ec\<close> or the root.  The flags of the cell are the supplied ones, the
  parent's with the additions set, the parent's with the removals cleared, or the
  parent's.  No constructor changes a cell that exists, so flags never change once set.
\<close>

theorem constructors_fix_flags:
  assumes "deref h (case ec of None \<Rightarrow> HierarchicalError | Some q \<Rightarrow> q) = Some pc"
  shows "NewSpecified h ec nm fl
           = (length h, h @ [\<lparr>parent = Some (case ec of None \<Rightarrow> HierarchicalError | Some q \<Rightarrow> q),
                               name = nm, flags = fl\<rparr>])
       \<and> (\<exists>x. NewWith h ec nm fl
                 = Some (length h, h @ [\<lparr>parent = Some (case ec of None \<Rightarrow> HierarchicalError | Some q \<Rightarrow> q),
                                          name = nm, flags = x\<rparr>])
              \<and> (\<forall>n. bit x n = (bit (flags pc) n \<or> bit fl n)))
       \<and> (\<exists>x. NewWithout h ec nm fl
                 = Some (length h, h @ [\<lparr>parent = Some (case ec of None \<Rightarrow> HierarchicalError | Some q \<Rightarrow> q),
                                          name = nm, flags = x\<rparr>])
              \<and> (\<forall>n. bit x n = (bit (flags pc) n \<and> \<not> bit fl n)))
       \<and> New h ec nm
           = Some (length h, h @ [\<lparr>parent = Some (case ec of None \<Rightarrow> HierarchicalError | Some q \<Rightarrow> q),
                                    name = nm, flags = flags pc\<rparr>])
       \<and> (\<forall>r c. deref h r = Some c \<longrightarrow>
              deref (snd (NewSpecified h ec nm fl)) r = Some c
            \<and> map_option (\<lambda>(a, h'). deref h' r) (NewWith h ec nm fl) = Some (Some c)
            \<and> map_option (\<lambda>(a, h'). deref h' r) (NewWithout h ec nm fl) = Some (Some c)
            \<and> map_option (\<lambda>(a, h'). deref h' r) (New h ec nm) = Some (Some c))"
proof (intro conjI allI impI)
  show "NewSpecified h ec nm fl
           = (length h, h @ [\<lparr>parent = Some (case ec of None \<Rightarrow> HierarchicalError | Some q \<Rightarrow> q),
                               name = nm, flags = fl\<rparr>])"
    by (simp add: NewSpecified_def default_parent alloc_def)
next
  have "NewWith h ec nm fl
          = Some (length h, h @ [\<lparr>parent = Some (case ec of None \<Rightarrow> HierarchicalError | Some q \<Rightarrow> q),
                                   name = nm, flags = flags pc OR fl\<rparr>])"
    using assms by (simp add: NewWith_def default_parent alloc_def)
  moreover have "\<forall>n. bit (flags pc OR fl) n = (bit (flags pc) n \<or> bit fl n)"
    by (simp add: bit_or_iff)
  ultimately show "\<exists>x. NewWith h ec nm fl
                 = Some (length h, h @ [\<lparr>parent = Some (case ec of None \<Rightarrow> HierarchicalError | Some q \<Rightarrow> q),
                                          name = nm, flags = x\<rparr>])
              \<and> (\<forall>n. bit x n = (bit (flags pc) n \<or> bit fl n))"
    by blast
next
  have "NewWithout h ec nm fl
          = Some (length h, h @ [\<lparr>parent = Some (case ec of None \<Rightarrow> HierarchicalError | Some q \<Rightarrow> q),
                                   name = nm, flags = flags pc AND NOT fl\<rparr>])"
    using assms by (simp add: NewWithout_def default_parent alloc_def)
  moreover have "\<forall>n. bit (flags pc AND NOT fl) n = (bit (flags pc) n \<and> \<not> bit fl n)"
    by (auto simp: bit_and_iff bit_not_iff dest: bit_imp_possible_bit)
  ultimately show "\<exists>x. NewWithout h ec nm fl
                 = Some (length h, h @ [\<lparr>parent = Some (case ec of None \<Rightarrow> HierarchicalError | Some q \<Rightarrow> q),
                                          name = nm, flags = x\<rparr>])
              \<and> (\<forall>n. bit x n = (bit (flags pc) n \<and> \<not> bit fl n))"
    by blast
next
  show "New h ec nm
           = Some (length h, h @ [\<lparr>parent = Some (case ec of None \<Rightarrow> HierarchicalError | Some q \<Rightarrow> q),
                                    name = nm, flags = flags pc\<rparr>])"
    using assms by (simp add: New_def default_parent alloc_def)
next
  fix r c assume "deref h r = Some c"
  then show "deref (snd (NewSpecified h ec nm fl)) r = Some c"
    by (simp add: NewSpecified_def Let_def deref_alloc_old)
next
  fix r c assume "deref h r = Some c"
  then show "map_option (\<lambda>(a, h'). deref h' r) (NewWith h ec nm fl) = Some (Some c)"
    using assms deref_alloc_old[of h r c]
    by (simp add: NewWith_def default_parent split_def)
next
  fix r c assume "deref h r = Some c"
  then show "map_option (\<lambda>(a, h'). deref h' r) (NewWithout h ec nm fl) = Some (Some c)"
    using assms deref_alloc_old[of h r c]
    by (simp add: NewWithout_def default_parent split_def)
next
  fix r c assume "deref h r = Some c"
  then show "map_option (\<lambda>(a, h'). deref h' r) (New h ec nm) = Some (Some c)"
    using assms deref_alloc_old[of h r c]
    by (simp add: New_def default_parent split_def)
qed

theorem constructors_fix_flags_witness:
  "deref (take 3 package_classes) HierarchicalError
     = Some \<lparr>parent = None, name = ''Error'', flags = CaptureStack\<rparr>
   \<and> NewSpecified (take 3 package_classes) None ''Programmer Error'' LogOnCreation
       = (ProgrammerError,
          take 3 package_classes
          @ [\<lparr>parent = Some HierarchicalError, name = ''Programmer Error'', flags = LogOnCreation\<rparr>])
   \<and> New (take 3 package_classes) None ''Programmer Error''
       = Some (ProgrammerError,
          take 3 package_classes
          @ [\<lparr>parent = Some HierarchicalError, name = ''Programmer Error'', flags = CaptureStack\<rparr>])
   \<and> NewWith (take 3 package_classes) None ''Programmer Error'' LogOnCreation
       = Some (ProgrammerError, take 4 package_classes)
   \<and> NewWithout (take 3 package_classes) None ''Programmer Error'' CaptureStack
       = Some (ProgrammerError,
          take 3 package_classes
          @ [\<lparr>parent = Some HierarchicalError, name = ''Programmer Error'', flags = 0\<rparr>])"
proof -
  have d: "deref (take 3 package_classes) HierarchicalError
     = Some \<lparr>parent = None, name = ''Error'', flags = CaptureStack\<rparr>"
    by (simp add: deref_def package_classes_def HierarchicalError_def)
  have l2: "min (length package_classes) 3 = ProgrammerError"
    by (simp add: package_classes_def ProgrammerError_def)
  have t: "take 4 package_classes
      = take 3 package_classes
        @ [\<lparr>parent = Some HierarchicalError, name = ''Programmer Error'',
            flags = CaptureStack OR LogOnCreation\<rparr>]"
    by (simp add: package_classes_def)
  have w: "NewWith (take 3 package_classes) None ''Programmer Error'' LogOnCreation
       = Some (ProgrammerError, take 4 package_classes)"
    using d by (simp add: NewWith_def alloc_def l2 t)
  have wo: "NewWithout (take 3 package_classes) None ''Programmer Error'' CaptureStack
       = Some (ProgrammerError,
          take 3 package_classes
          @ [\<lparr>parent = Some HierarchicalError, name = ''Programmer Error'', flags = 0\<rparr>])"
    using d by (simp add: NewWithout_def alloc_def l2)
  from constructors_fix_flags[where h = "take 3 package_classes" and ec = None
      and nm = "''Programmer Error''" and fl = LogOnCreation
      and pc = "\<lparr>parent = None, name = ''Error'', flags = CaptureStack\<rparr>"] d w wo
  show ?thesis by (simp add: l2)
qed

text \<open>
  The stores of the packages and of the tests are what the initialisers of their
  variables build, one constructor call after the other.
\<close>

lemma package_classes_built:
  "NewWith (take 2 package_classes) None ''Not Implemented Error'' LogOnCreation
     = Some (NotImplementedError, take 3 package_classes)"
  "NewWith (take 3 package_classes) None ''Programmer Error'' LogOnCreation
     = Some (ProgrammerError, take 4 package_classes)"
  "New (take 4 package_classes) (Some SystemError) ''Syscall Error''
     = Some (SyscallError, take 5 package_classes)"
  "New (take 5 package_classes) (Some SystemError) ''Errno Error''
     = Some (ErrnoError, take 6 package_classes)"
  "New (take 6 package_classes) (Some SystemError) ''Network Error''
     = Some (NetworkError, take 7 package_classes)"
  "New (take 7 package_classes) (Some NetworkError) ''Unknown Network Error''
     = Some (UnknownNetworkError, take 8 package_classes)"
  "New (take 8 package_classes) (Some NetworkError) ''Addr Error''
     = Some (AddrError, take 9 package_classes)"
  "New (take 9 package_classes) (Some AddrError) ''Invalid Addr Error''
     = Some (InvalidAddrError, take 10 package_classes)"
  "New (take 10 package_classes) (Some NetworkError) ''Network Op Error''
     = Some (NetOpError, take 11 package_classes)"
  "New (take 11 package_classes) (Some NetworkError) ''Network Parse Error''
     = Some (NetParseError, take 12 package_classes)"
  "New (take 12 package_classes) (Some NetworkError) ''DNS Error''
     = Some (DNSError, take 13 package_classes)"
  "New (take 13 package_classes) (Some DNSError) ''DNS Config Error''
     = Some (DNSConfigError, package_classes)"
  by (simp_all add: NewWith_def New_def alloc_def deref_def package_classes_def class_addresses
        Let_def eval_nat_numeral)

lemma test_classes_built:
  "New package_classes None ''Unknown Error'' = Some (UnknownPanicError, try_classes)"
  "New try_classes None ''fruit'' = Some (FruitError, take 16 test_classes)"
  "New (take 16 test_classes) (Some FruitError) ''apple'' = Some (AppleError, take 17 test_classes)"
  "New (take 17 test_classes) (Some FruitError) ''grape'' = Some (GrapeError, take 18 test_classes)"
  "New (take 18 test_classes) None ''rock'' = Some (RockError, test_classes)"
  by (simp_all add: New_def alloc_def deref_def test_classes_def try_classes_def
        package_classes_def class_addresses Let_def eval_nat_numeral)

section \<open>The string rendering\<close>

lemma Replace_Nil: "Replace [] old new = []"
  by (simp add: Replace.simps)

lemma Replace_char:
  "Replace (c # cs) [n] new = (if c = n then new @ Replace cs [n] new else c # Replace cs [n] new)"
  by (subst Replace.simps) simp

lemma split_lines_not_Nil: "split_lines s \<noteq> []"
  by (induction s) (auto split: list.splits)

lemma Replace_indents:
  "''  '' @ Replace s newline (newline @ ''  '') = indent_lines s"
proof (induction s)
  case Nil
  then show ?case by (simp add: Replace_Nil indent_lines_def)
next
  case (Cons c cs)
  obtain l ls where l: "split_lines cs = l # ls"
    using split_lines_not_Nil[of cs] by (cases "split_lines cs") auto
  show ?case
  proof (cases "c = CHR 0x0A")
    case True
    with Cons l show ?thesis
      by (simp add: newline_def Replace_char indent_lines_def)
  next
    case False
    with Cons l show ?thesis
      by (cases ls) (simp_all add: newline_def Replace_char indent_lines_def)
  qed
qed

lemma take1_drop: "take (Suc 0) (drop i s) = [n] \<longleftrightarrow> i < length s \<and> s ! i = n"
proof (cases "i < length s")
  case True
  then have "drop i s = s ! i # drop (Suc i) s" by (simp add: Cons_nth_drop_Suc)
  with True show ?thesis by simp
next
  case False
  then show ?thesis by simp
qed

lemma Contains_char: "Contains s [n] \<longleftrightarrow> n \<in> set s"
  by (auto simp: Contains_def list_ex_iff in_set_conv_nth take1_drop)

lemma TrimRight_splits:
  "s = TrimRight s cutset @ rev (takeWhile (\<lambda>c. c \<in> set cutset) (rev s))"
proof -
  have "rev (takeWhile (\<lambda>c. c \<in> set cutset) (rev s) @ dropWhile (\<lambda>c. c \<in> set cutset) (rev s)) = s"
    by (simp only: takeWhile_dropWhile_id rev_rev_ident)
  then show ?thesis by (simp only: rev_append TrimRight_def)
qed

lemma TrimRight_last:
  "TrimRight s cutset \<noteq> [] \<Longrightarrow> last (TrimRight s cutset) \<notin> set cutset"
  using hd_dropWhile[of "\<lambda>c. c \<in> set cutset" "rev s"]
  by (simp add: TrimRight_def last_rev)

lemma TrimRight_rest:
  "set (rev (takeWhile (\<lambda>c. c \<in> set cutset) (rev s))) \<subseteq> set cutset"
  by (auto dest: set_takeWhileD)


text \<open>
  C9, as amended.  The message rendered is the cause's message without its trailing
  newlines and spaces.  When that message has no newline the rendering is the class
  name, a colon, a space and the message; otherwise it is the class name, a colon, and
  below it the lines of the message, each moved two spaces to the right.  When a stack
  was captured, a blank line and \<open><class> backtrace: <bytes>\<close> follow.
\<close>

theorem Error_Error_rendering:
  assumes "error_Error h x = Some (Returned m)" and "deref h c = Some cls"
  shows "Error_Error h (Error (Some x) (Some c) stk ex d)
           = Some (Returned
               ((if CHR 0x0A \<in> set (TrimRight m (newline @ '' ''))
                 then name cls @ '':'' @ newline @ indent_lines (TrimRight m (newline @ '' ''))
                 else name cls @ '': '' @ TrimRight m (newline @ '' ''))
                @ (case stk of
                     None \<Rightarrow> []
                   | Some bytes \<Rightarrow> newline @ newline @ name cls @ '' backtrace: '' @ bytes)))
       \<and> (\<exists>rest. m = TrimRight m (newline @ '' '') @ rest \<and> set rest \<subseteq> {CHR 0x0A, CHR '' ''})
       \<and> (TrimRight m (newline @ '' '') = []
            \<or> last (TrimRight m (newline @ '' '')) \<notin> {CHR 0x0A, CHR '' ''})"
proof (intro conjI)
  have r: "CHR '' '' # CHR '' '' # Replace (TrimRight m (newline @ '' '')) newline (newline @ ''  '')
      = indent_lines (TrimRight m (newline @ '' ''))"
    using Replace_indents[of "TrimRight m (newline @ '' '')"] by simp
  have c: "Contains (TrimRight m (newline @ '' '')) newline
             \<longleftrightarrow> CHR 0x0A \<in> set (TrimRight m (newline @ '' ''))"
    by (simp add: newline_def Contains_char)
  show "Error_Error h (Error (Some x) (Some c) stk ex d)
           = Some (Returned
               ((if CHR 0x0A \<in> set (TrimRight m (newline @ '' ''))
                 then name cls @ '':'' @ newline @ indent_lines (TrimRight m (newline @ '' ''))
                 else name cls @ '': '' @ TrimRight m (newline @ '' ''))
                @ (case stk of
                     None \<Rightarrow> []
                   | Some bytes \<Rightarrow> newline @ newline @ name cls @ '' backtrace: '' @ bytes)))"
    using assms r
    by (simp add: ErrorClass_String_def c Let_def split: option.splits)
next
  have "m = TrimRight m (newline @ '' '')
              @ rev (takeWhile (\<lambda>c. c \<in> set (newline @ '' '')) (rev m))"
    by (rule TrimRight_splits)
  moreover have "set (rev (takeWhile (\<lambda>c. c \<in> set (newline @ '' '')) (rev m)))
                   \<subseteq> {CHR 0x0A, CHR '' ''}"
    using TrimRight_rest[of "newline @ '' ''" m] by (simp add: newline_def)
  ultimately show "\<exists>rest. m = TrimRight m (newline @ '' '') @ rest \<and> set rest \<subseteq> {CHR 0x0A, CHR '' ''}"
    by blast
next
  show "TrimRight m (newline @ '' '') = []
          \<or> last (TrimRight m (newline @ '' '')) \<notin> {CHR 0x0A, CHR '' ''}"
    using TrimRight_last[of m "newline @ '' ''"] by (auto simp: newline_def)
qed

theorem Error_Error_rendering_witness:
  "error_Error test_classes (ErrorString (''could not open'' @ newline @ ''  file'' @ newline))
     = Some (Returned (''could not open'' @ newline @ ''  file'' @ newline))
   \<and> deref test_classes AppleError
       = Some \<lparr>parent = Some FruitError, name = ''apple'', flags = CaptureStack\<rparr>
   \<and> Error_Error test_classes
        (Error (Some (ErrorString (''could not open'' @ newline @ ''  file'' @ newline)))
           (Some AppleError) (Some ''goroutine 1'') [] [])
       = Some (Returned (''apple:'' @ newline @ ''  could not open'' @ newline @ ''    file''
                         @ newline @ newline @ ''apple backtrace: goroutine 1''))"
proof -
  have t: "TrimRight (''could not open'' @ newline @ ''  file'' @ newline) (newline @ '' '')
             = ''could not open'' @ newline @ ''  file''"
    by (simp add: TrimRight_def newline_def)
  have i: "indent_lines (''could not open'' @ newline @ ''  file'')
             = ''  could not open'' @ newline @ ''    file''"
    by (simp add: indent_lines_def newline_def)
  have n: "CHR 0x0A \<in> set (''could not open'' @ newline @ ''  file'')"
    by (simp add: newline_def)
  from Error_Error_rendering[where h = test_classes
      and x = "ErrorString (''could not open'' @ newline @ ''  file'' @ newline)"
      and m = "''could not open'' @ newline @ ''  file'' @ newline" and c = AppleError
      and cls = "\<lparr>parent = Some FruitError, name = ''apple'', flags = CaptureStack\<rparr>"
      and stk = "Some ''goroutine 1''" and ex = "[]" and d = "[]"]
  have "Error_Error test_classes
        (Error (Some (ErrorString (''could not open'' @ newline @ ''  file'' @ newline)))
           (Some AppleError) (Some ''goroutine 1'') [] [])
       = Some (Returned (''apple'' @ '':'' @ newline @ ''  could not open'' @ newline @ ''    file''
                         @ newline @ newline @ ''apple'' @ '' backtrace: '' @ ''goroutine 1''))"
    by (simp only: t i n deref_test_classes error_Error.simps if_True option.case
          ErrorClass.simps simp_thms append_assoc)
  then show ?thesis
    by (simp add: deref_test_classes)
qed

text \<open>
  C9, as stated, fails on a single-line message that ends in a space: the message
  \<open>emsg \<close> under the class \<open>apple\<close> is rendered \<open>apple: emsg\<close>, without the space.
\<close>

theorem Error_Error_untrimmed_counterexample:
  "\<not> Contains ''emsg '' newline
   \<and> Error_Error test_classes (Error (Some (ErrorString ''emsg '')) (Some AppleError) None [] [])
       = Some (Returned ''apple: emsg'')
   \<and> ''apple: emsg'' \<noteq> ''apple'' @ '': '' @ ''emsg ''"
  by (simp add: ErrorClass_String_def deref_test_classes TrimRight_def Contains_char newline_def)

section \<open>Wrapping\<close>

lemma Error_Is_total:
  "forest h \<Longrightarrow> (case class' ec of None \<Rightarrow> True | Some r \<Rightarrow> r < length h)
     \<Longrightarrow> \<exists>b. Error_Is h ec c = Some b"
  unfolding Error_Is_def by (rule Is_total)

lemma Is_any_exists:
  assumes "forest h" and "case class' ec of None \<Rightarrow> True | Some r \<Rightarrow> r < length h"
  shows "Is_any h ec cs = Some (\<exists>c \<in> set cs. Error_Is h ec c = Some True)"
proof (induction cs)
  case Nil
  then show ?case by simp
next
  case (Cons c cs)
  from Error_Is_total[OF assms, of c] obtain b where "Error_Is h ec c = Some b" by blast
  with Cons show ?case by (cases b) auto
qed

lemma Wrap_nil: "Wrap rt e None cs w = Some (Returned None, w)"
  by (simp add: Wrap_def)

lemma Wrap_unchanged:
  assumes "forest (classes w)"
    and "case class' ec of None \<Rightarrow> True | Some r \<Rightarrow> r < length (classes w)"
    and "Error_Is (classes w) ec e = Some True \<or> (\<exists>c \<in> set cs. Error_Is (classes w) ec c = Some True)"
  shows "Wrap rt e (Some (Classified ec)) cs w = Some (Returned (Some (Classified ec)), w)"
proof -
  from Error_Is_total[OF assms(1,2), of e] obtain b where b: "Error_Is (classes w) ec e = Some b"
    by blast
  show ?thesis
    using assms(3) b Is_any_exists[OF assms(1,2), of cs]
    by (cases b) (auto simp: Wrap_def)
qed

lemma Error_Error_new:
  "error_Error h x = Some (Returned m) \<Longrightarrow> deref h c = Some cls
   \<Longrightarrow> \<exists>s. Error_Error h (Error (Some x) (Some c) stk ex d) = Some (Returned s)"
  by (simp add: ErrorClass_String_def Let_def split: option.splits)

lemma Wrap_constructs:
  assumes "forest (classes w)"
    and "\<forall>ec. x = Classified ec \<longrightarrow>
           (case class' ec of None \<Rightarrow> True | Some r \<Rightarrow> r < length (classes w))
         \<and> Error_Is (classes w) ec (Some c) \<noteq> Some True
         \<and> (\<forall>k \<in> set cs. Error_Is (classes w) ec k \<noteq> Some True)"
    and "deref (classes w) c = Some cls"
    and "error_Error (classes w) x = Some (Returned m)"
  shows "\<exists>w'. Wrap rt (Some c) (Some x) cs w
           = Some (Returned (Some (Classified
               (Error (Some x) (Some c)
                  (if flags cls AND CaptureStack > 0
                   then Some (take (stackCaptureSize rt) (Stack rt)) else None) [] []))), w')
         \<and> classes w' = classes w
         \<and> (\<not> flags cls AND LogOnCreation > 0 \<longrightarrow> w' = w)"
proof -
  have pre: "(case x of
                Classified ec \<Rightarrow>
                  (case Error_Is (classes w) ec (Some c) of
                     None \<Rightarrow> None
                   | Some b \<Rightarrow> if b then Some True else Is_any (classes w) ec cs)
              | ErrorString m \<Rightarrow> Some False) = Some False"
  proof (cases x)
    case (ErrorString m')
    then show ?thesis by simp
  next
    case (Classified ec)
    with assms(2) have v: "case class' ec of None \<Rightarrow> True | Some r \<Rightarrow> r < length (classes w)"
      and n1: "Error_Is (classes w) ec (Some c) \<noteq> Some True"
      and n2: "\<forall>k \<in> set cs. Error_Is (classes w) ec k \<noteq> Some True"
      by simp_all
    from Error_Is_total[OF assms(1) v, of "Some c"] n1
    have "Error_Is (classes w) ec (Some c) = Some False" by auto
    with Classified n2 Is_any_exists[OF assms(1) v, of cs] show ?thesis by simp
  qed
  from Error_Error_new[OF assms(4,3)] obtain s where
    s: "Error_Error (classes w) (Error (Some x) (Some c)
          (if flags cls AND CaptureStack > 0
           then Some (take (stackCaptureSize rt) (Stack rt)) else None) [] []) = Some (Returned s)"
    by blast
  show ?thesis
  proof (cases "flags cls AND LogOnCreation > 0")
    case True
    with pre s assms(3) show ?thesis
      by (cases "flags cls AND CaptureStack > 0")
         (simp_all add: Wrap_def Let_def LogWithStack_def del: Error_Error.simps)
  next
    case False
    with pre assms(3) show ?thesis
      by (simp add: Wrap_def Let_def del: Error_Error.simps)
  qed
qed


lemma Is_test_classes:
  "ErrorClass_Is test_classes (Some AppleError) (Some FruitError) = Some True"
  "ErrorClass_Is test_classes (Some AppleError) (Some RockError) = Some False"
  "ErrorClass_Is test_classes (Some AppleError) (Some AppleError) = Some True"
  "ErrorClass_Is test_classes (Some AppleError) (Some UnknownPanicError) = Some False"
  "ErrorClass_Is test_classes (Some UnknownPanicError) (Some RockError) = Some False"
  "ErrorClass_Is test_classes (Some UnknownPanicError) (Some UnknownPanicError) = Some True"
  "ErrorClass_Is test_classes (Some UnknownPanicError) (Some HierarchicalError) = Some True"
  by (simp_all add: ErrorClass_Is.simps deref_def test_classes_def try_classes_def
        package_classes_def class_addresses)

text \<open>
  C6.  \<open>Wrap\<close> of a nil cause returns nil.  \<open>Wrap\<close> of a classified Error whose class
  \<open>Is\<close> the wrapping class, or \<open>Is\<close> one of the exemption classes, returns that very
  value and leaves the state as it was (nothing built, captured or logged).  Otherwise
  it returns a new Error whose cause is the given one and whose class is the wrapping
  class, with a stack exactly when the class captures one; the class store is untouched,
  and so is the whole state unless the class logs on creation.
\<close>

theorem Wrap_idempotent:
  assumes "forest (classes w)"
    and "\<forall>ec. cause = Some (Classified ec) \<longrightarrow>
           (case class' ec of None \<Rightarrow> True | Some r \<Rightarrow> r < length (classes w))"
  shows "Wrap rt e None cs w = Some (Returned None, w)
       \<and> (\<forall>ec. cause = Some (Classified ec)
              \<and> (Error_Is (classes w) ec e = Some True
                  \<or> (\<exists>k \<in> set cs. Error_Is (classes w) ec k = Some True))
            \<longrightarrow> Wrap rt e cause cs w = Some (Returned cause, w))
       \<and> (\<forall>x c cls m. cause = Some x \<and> e = Some c \<and> deref (classes w) c = Some cls
              \<and> error_Error (classes w) x = Some (Returned m)
              \<and> (\<forall>ec. x = Classified ec \<longrightarrow>
                     Error_Is (classes w) ec e \<noteq> Some True
                   \<and> (\<forall>k \<in> set cs. Error_Is (classes w) ec k \<noteq> Some True))
            \<longrightarrow> (\<exists>w'. Wrap rt e cause cs w
                         = Some (Returned (Some (Classified
                             (Error cause e
                                (if flags cls AND CaptureStack > 0
                                 then Some (take (stackCaptureSize rt) (Stack rt)) else None)
                                [] []))), w')
                     \<and> classes w' = classes w
                     \<and> (\<not> flags cls AND LogOnCreation > 0 \<longrightarrow> w' = w)))"
proof (intro conjI allI impI)
  show "Wrap rt e None cs w = Some (Returned None, w)" by (rule Wrap_nil)
next
  fix ec
  assume a: "cause = Some (Classified ec)
              \<and> (Error_Is (classes w) ec e = Some True
                  \<or> (\<exists>k \<in> set cs. Error_Is (classes w) ec k = Some True))"
  with assms(2) have "case class' ec of None \<Rightarrow> True | Some r \<Rightarrow> r < length (classes w)"
    by simp
  from Wrap_unchanged[OF assms(1) this, of e cs rt] a
  show "Wrap rt e cause cs w = Some (Returned cause, w)" by simp
next
  fix x c cls m
  assume a: "cause = Some x \<and> e = Some c \<and> deref (classes w) c = Some cls
              \<and> error_Error (classes w) x = Some (Returned m)
              \<and> (\<forall>ec. x = Classified ec \<longrightarrow>
                     Error_Is (classes w) ec e \<noteq> Some True
                   \<and> (\<forall>k \<in> set cs. Error_Is (classes w) ec k \<noteq> Some True))"
  with assms(2) have "\<forall>ec. x = Classified ec \<longrightarrow>
           (case class' ec of None \<Rightarrow> True | Some r \<Rightarrow> r < length (classes w))
         \<and> Error_Is (classes w) ec (Some c) \<noteq> Some True
         \<and> (\<forall>k \<in> set cs. Error_Is (classes w) ec k \<noteq> Some True)"
    by auto
  from Wrap_constructs[OF assms(1) this, of cls m rt] a
  show "\<exists>w'. Wrap rt e cause cs w
                 = Some (Returned (Some (Classified
                     (Error cause e
                        (if flags cls AND CaptureStack > 0
                         then Some (take (stackCaptureSize rt) (Stack rt)) else None)
                        [] []))), w')
             \<and> classes w' = classes w
             \<and> (\<not> flags cls AND LogOnCreation > 0 \<longrightarrow> w' = w)"
    by simp
qed

theorem Wrap_idempotent_witness:
  "forest (classes test_start)
   \<and> Wrap test_runtime (Some FruitError) (Some (Classified apple_emsg)) [] test_start
       = Some (Returned (Some (Classified apple_emsg)), test_start)
   \<and> Wrap test_runtime (Some RockError) (Some (Classified apple_emsg)) [Some FruitError] test_start
       = Some (Returned (Some (Classified apple_emsg)), test_start)
   \<and> Wrap test_runtime (Some RockError) (Some (Classified apple_emsg)) [] test_start
       = Some (Returned (Some (Classified
            (Error (Some (Classified apple_emsg)) (Some RockError)
               (Some ''goroutine 1 [running]:'') [] []))), test_start)"
proof -
  have f: "forest (classes test_start)"
    by (simp add: test_start_def forest_test_classes)
  have v: "\<forall>ec. Some (Classified apple_emsg) = Some (Classified ec) \<longrightarrow>
           (case class' ec of None \<Rightarrow> True | Some r \<Rightarrow> r < length (classes test_start))"
    by (simp add: apple_emsg_def test_start_def length_test_classes AppleError_def)
  have c: "classes test_start = test_classes" by (simp add: test_start_def)
  have ai: "Error_Is test_classes apple_emsg (Some FruitError) = Some True"
    "Error_Is test_classes apple_emsg (Some RockError) = Some False"
    by (simp_all add: Error_Is_def apple_emsg_def Is_test_classes)
  have r: "error_Error test_classes (Classified apple_emsg)
             = Some (Returned (''apple: emsg'' @ newline @ newline
                               @ ''apple backtrace: goroutine 1 [running]:''))"
    by (simp add: apple_emsg_def ErrorClass_String_def deref_test_classes TrimRight_def Contains_char
          newline_def)
  have cap: "(CaptureStack AND CaptureStack > 0) \<and> \<not> (CaptureStack AND LogOnCreation > 0)"
    by (simp add: CaptureStack_def LogOnCreation_def)
  have s: "take (stackCaptureSize test_runtime) (Stack test_runtime) = ''goroutine 1 [running]:''"
    by (simp add: test_runtime_def)
  note t1 = Wrap_idempotent[OF f v, where rt = test_runtime and e = "Some FruitError" and cs = "[]"]
  note t2 = Wrap_idempotent[OF f v, where rt = test_runtime and e = "Some RockError"
              and cs = "[Some FruitError]"]
  note t3 = Wrap_idempotent[OF f v, where rt = test_runtime and e = "Some RockError" and cs = "[]"]
  have w1: "Wrap test_runtime (Some FruitError) (Some (Classified apple_emsg)) [] test_start
       = Some (Returned (Some (Classified apple_emsg)), test_start)"
    using t1 ai by (simp add: c)
  have w2: "Wrap test_runtime (Some RockError) (Some (Classified apple_emsg)) [Some FruitError] test_start
       = Some (Returned (Some (Classified apple_emsg)), test_start)"
    using t2 ai by (simp add: c)
  from t3 have "\<exists>w'. Wrap test_runtime (Some RockError) (Some (Classified apple_emsg)) [] test_start
             = Some (Returned (Some (Classified
                  (Error (Some (Classified apple_emsg)) (Some RockError)
                     (Some ''goroutine 1 [running]:'') [] []))), w')
           \<and> classes w' = classes test_start \<and> w' = test_start"
    using ai r cap s deref_test_classes(7)
    by (simp add: c del: error_Error.simps)
  then have w3: "Wrap test_runtime (Some RockError) (Some (Classified apple_emsg)) [] test_start
       = Some (Returned (Some (Classified
            (Error (Some (Classified apple_emsg)) (Some RockError)
               (Some ''goroutine 1 [running]:'') [] []))), test_start)"
    by auto
  from f w1 w2 w3 show ?thesis by simp
qed

section \<open>The terminal call of a plan\<close>

lemma class_RecordBefore: "class' (RecordBefore rt e n) = class' e"
  by (simp add: RecordBefore_def)

lemma Done_Error_find:
  assumes "forest (classes w)"
    and "case class' e of None \<Rightarrow> True | Some r \<Rightarrow> r < length (classes w)"
  shows "Done_Error e cs w
           = Some (case find (entry_matches (classes w) (class' e)) cs of
                     None \<Rightarrow> (False, Returned (), w)
                   | Some c \<Rightarrow> (True, invoke c e w))"
proof (induction cs)
  case Nil
  then show ?case by simp
next
  case (Cons c cs)
  from Error_Is_total[OF assms, of "match c"] obtain b where
    b: "Error_Is (classes w) e (match c) = Some b" by blast
  show ?case
  proof (cases "match c = None")
    case True
    then show ?thesis by (simp add: entry_matches_def invoke_def)
  next
    case False
    with b Cons show ?thesis
      by (cases b) (auto simp: entry_matches_def invoke_def Error_Is_def)
  qed
qed

lemma Done_error_find:
  "Done_error x cs w
     = (case find (\<lambda>c. match c = None) cs of
          None \<Rightarrow> (False, Returned (), w)
        | Some c \<Rightarrow> (True, call1 (anyhandler c) (Some x) w))"
  by (induction cs) simp_all

lemma NewWith_unknown:
  assumes "forest (classes w)" and "deref (classes w) UnknownPanicError = Some cls"
  shows "\<exists>w2. ErrorClass_NewWith rt (Some UnknownPanicError) msg [SetData OriginalErrorKey rec] w
           = Some (Returned (Some (Classified
               (Error (Some (ErrorString msg)) (Some UnknownPanicError)
                  (if flags cls AND CaptureStack > 0
                   then Some (take (stackCaptureSize rt) (Stack rt)) else None)
                  [] [(OriginalErrorKey, rec)]))), w2)
         \<and> classes w2 = classes w
         \<and> (\<not> flags cls AND LogOnCreation > 0 \<longrightarrow> w2 = w)"
proof -
  have "\<forall>ec. ErrorString msg = Classified ec \<longrightarrow>
           (case class' ec of None \<Rightarrow> True | Some r \<Rightarrow> r < length (classes w))
         \<and> Error_Is (classes w) ec (Some UnknownPanicError) \<noteq> Some True
         \<and> (\<forall>k \<in> set []. Error_Is (classes w) ec k \<noteq> Some True)"
    by simp
  from Wrap_constructs[OF assms(1) this assms(2), of msg rt]
  obtain w' where "Wrap rt (Some UnknownPanicError) (Some (ErrorString msg)) [] w
           = Some (Returned (Some (Classified
               (Error (Some (ErrorString msg)) (Some UnknownPanicError)
                  (if flags cls AND CaptureStack > 0
                   then Some (take (stackCaptureSize rt) (Stack rt)) else None) [] []))), w')
         \<and> classes w' = classes w
         \<and> (\<not> flags cls AND LogOnCreation > 0 \<longrightarrow> w' = w)"
    by auto
  then show ?thesis
    by (simp add: ErrorClass_NewWith_def SetData_def)
qed

lemma Done_default_find:
  assumes "forest (classes w)" and "UnknownPanicError < length (classes w)"
    and "ErrorClass_NewWith rt (Some UnknownPanicError) (Sprint rt rec)
           [SetData OriginalErrorKey rec] w = Some (Returned (Some (Classified pan)), w2)"
  shows "Done_default rt rec cs w
           = Some (case find (entry_matches (classes w) (Some UnknownPanicError)) cs of
                     None \<Rightarrow> (False, Returned (), w)
                   | Some c \<Rightarrow> (True, invoke c pan w2))"
proof (induction cs)
  case Nil
  then show ?case by simp
next
  case (Cons c cs)
  have "case Some UnknownPanicError of None \<Rightarrow> True | Some r \<Rightarrow> r < length (classes w)"
    using assms(2) by simp
  from Is_total[OF assms(1) this, of "match c"] obtain b where
    b: "ErrorClass_Is (classes w) (Some UnknownPanicError) (match c) = Some b" by blast
  show ?case
  proof (cases "match c = None")
    case True
    with assms(3) show ?thesis by (simp add: entry_matches_def invoke_def)
  next
    case False
    with b Cons assms(3) show ?thesis
      by (cases b) (auto simp: entry_matches_def invoke_def)
  qed
qed

lemma Done_classified:
  assumes "call (main p) w = (Panicked (VErr (Classified e)), w1)"
    and "forest (classes w1)"
    and "case class' e of None \<Rightarrow> True | Some r \<Rightarrow> r < length (classes w1)"
  shows "Done rt p w
           = Some (case find (entry_matches (classes w1) (class' e)) (catch p) of
                     None \<Rightarrow> Done_deferred p False (VErr (Classified (RecordBefore rt e 3)))
                               (Returned (), w1)
                   | Some c \<Rightarrow> Done_deferred p True (VErr (Classified (RecordBefore rt e 3)))
                                 (invoke c (RecordBefore rt e 3) w1))"
proof -
  have "case class' (RecordBefore rt e 3) of None \<Rightarrow> True | Some r \<Rightarrow> r < length (classes w1)"
    using assms(3) by (simp add: class_RecordBefore)
  from Done_Error_find[OF assms(2) this, of "catch p"] assms(1)
  show ?thesis
    by (simp add: Done_def recover_def Let_def class_RecordBefore split: option.splits)
qed

lemma Done_recovered_plain:
  assumes "call (main p) w = (out, w1)" and "recover rt out = VErr (ErrorString m)"
  shows "Done rt p w
           = Some (case find (\<lambda>c. match c = None) (catch p) of
                     None \<Rightarrow> Done_deferred p False (VErr (ErrorString m)) (Returned (), w1)
                   | Some c \<Rightarrow> Done_deferred p True (VErr (ErrorString m))
                                 (call1 (anyhandler c) (Some (ErrorString m)) w1))"
  using assms
  by (simp add: Done_def Let_def Done_error_find split: option.splits)

lemma Done_plain:
  assumes "call (main p) w = (Panicked (VErr (ErrorString m)), w1)"
  shows "Done rt p w
           = Some (case find (\<lambda>c. match c = None) (catch p) of
                     None \<Rightarrow> Done_deferred p False (VErr (ErrorString m)) (Returned (), w1)
                   | Some c \<Rightarrow> Done_deferred p True (VErr (ErrorString m))
                                 (call1 (anyhandler c) (Some (ErrorString m)) w1))"
  by (rule Done_recovered_plain[OF assms]) (simp add: recover_def)

lemma recover_cases:
  "recover rt out = VInt i \<longleftrightarrow> out = Panicked (VInt i)"
  "recover rt out = VStr t \<longleftrightarrow> out = Panicked (VStr t)"
  "recover rt out = VRef a \<longleftrightarrow> out = Panicked (VRef a)"
  "recover rt out = VErr (Classified e) \<longleftrightarrow> out = Panicked (VErr (Classified e))"
  by (cases out; simp add: recover_def PanicNilError_def; fail)+

lemma Done_other:
  assumes "call (main p) w = (Panicked rec, w1)" and "rec \<noteq> VNil" and "\<forall>x. rec \<noteq> VErr x"
    and "forest (classes w1)" and "UnknownPanicError < length (classes w1)"
    and "ErrorClass_NewWith rt (Some UnknownPanicError) (Sprint rt rec)
           [SetData OriginalErrorKey rec] w1 = Some (Returned (Some (Classified pan)), w2)"
  shows "Done rt p w
           = Some (case find (entry_matches (classes w1) (Some UnknownPanicError)) (catch p) of
                     None \<Rightarrow> Done_deferred p False rec (Returned (), w1)
                   | Some c \<Rightarrow> Done_deferred p True rec (invoke c pan w2))"
  using assms(1,2,3) Done_default_find[OF assms(4,5,6), of "catch p"]
  by (cases rec) (simp_all add: Done_def recover_def Let_def split: option.splits)

lemma Done_nil:
  assumes "recover rt (fst (call (main p) w)) = VNil"
  shows "Done rt p w = Some (Done_deferred p True VNil (Returned (), snd (call (main p) w)))"
  using assms by (simp add: Done_def Let_def split_def)

lemma catch_registration:
  "catch (Catch p kind h) = catch p @ [\<lparr>match = kind, handler = h, anyhandler = None\<rparr>]"
  "catch (CatchAll p g) = catch p @ [\<lparr>match = None, handler = None, anyhandler = g\<rparr>]"
  "catch (Finally p f) = catch p"
  "catch (Do m) = []"
  by (simp_all add: Catch_def CatchAll_def Finally_def Do_def Let_def)

lemma main_registration:
  "main (Catch p kind h) = main p"
  "main (CatchAll p g) = main p"
  "main (Finally p f) = main p"
  "main (Do m) = m"
  by (simp_all add: Catch_def CatchAll_def Finally_def Do_def Let_def)

lemma finally_registration:
  "finally (Catch p kind h) = finally p"
  "finally (CatchAll p g) = finally p"
  "finally (Finally p f) w
     = (case call f w of (Panicked v, w') \<Rightarrow> (Panicked v, w') | (Returned u, w') \<Rightarrow> finally p w')"
  "finally (Do m) w = (Returned (), w)"
  by (simp_all add: Catch_def CatchAll_def Finally_def Do_def Let_def)

lemma Done_deferred_count:
  assumes "\<forall>x. cnt (snd (finally p x)) = f (cnt x)"
  shows "cnt (snd (Done_deferred p consumed rec (out, x))) = f (cnt x)"
  using assms[rule_format, of x]
  by (auto simp: Done_deferred_def split: prod.splits result.splits)

text \<open>
  C1.  When the block panics with a classified Error, \<open>Done\<close> returns what the
  deferred function makes of one call: that of the handler of the first entry, in
  registration order, that is the wildcard or whose class the Error \<open>Is\<close>, applied to
  the Error (with its exit recorded) in the state the block left; when no entry
  matches, no handler is called.  (An entry that \<open>Catch\<close> registered with a nil class
  counts as a wildcard, and a handler that is nil panics when called: \<open>invoke\<close> and
  \<open>call1\<close> say so.)  A count that every handler raises by one and \<open>finally\<close> leaves
  alone is raised by exactly one.  With \<open>Catch(Y)\<close>, \<open>Catch(X)\<close> and \<open>CatchAll\<close>
  registered in this order and the class \<open>X\<close> of the Error being a \<open>Y\<close>, the call is
  that of the handler of \<open>Y\<close>.
\<close>

theorem Done_first_match_wins:
  assumes "call (main p) w = (Panicked (VErr (Classified e)), w1)"
    and "forest (classes w1)"
    and "case class' e of None \<Rightarrow> True | Some r \<Rightarrow> r < length (classes w1)"
  shows "Done rt p w
           = Some (case find (entry_matches (classes w1) (class' e)) (catch p) of
                     None \<Rightarrow> Done_deferred p False (VErr (Classified (RecordBefore rt e 3)))
                               (Returned (), w1)
                   | Some c \<Rightarrow> Done_deferred p True (VErr (Classified (RecordBefore rt e 3)))
                                 (invoke c (RecordBefore rt e 3) w1))
       \<and> ((\<forall>x. cnt (snd (finally p x)) = cnt x)
            \<and> (\<forall>c \<in> set (catch p). \<forall>a x. cnt (snd (invoke c a x)) = Suc (cnt x))
            \<and> find (entry_matches (classes w1) (class' e)) (catch p) \<noteq> None
          \<longrightarrow> (\<exists>out w'. Done rt p w = Some (out, w') \<and> cnt w' = Suc (cnt w1)))
       \<and> (p = CatchAll (Catch (Catch q (Some Y) hY) (Some X) hX) hAll \<and> catch q = []
            \<and> class' e = Some X \<and> ErrorClass_Is (classes w1) (Some X) (Some Y) = Some True
          \<longrightarrow> Done rt p w
                = Some (Done_deferred p True (VErr (Classified (RecordBefore rt e 3)))
                          (call1 hY (RecordBefore rt e 3) w1)))"
proof (intro conjI impI)
  show d: "Done rt p w
           = Some (case find (entry_matches (classes w1) (class' e)) (catch p) of
                     None \<Rightarrow> Done_deferred p False (VErr (Classified (RecordBefore rt e 3)))
                               (Returned (), w1)
                   | Some c \<Rightarrow> Done_deferred p True (VErr (Classified (RecordBefore rt e 3)))
                                 (invoke c (RecordBefore rt e 3) w1))"
    using assms by (rule Done_classified)
  {
    assume a: "(\<forall>x. cnt (snd (finally p x)) = cnt x)
            \<and> (\<forall>c \<in> set (catch p). \<forall>a x. cnt (snd (invoke c a x)) = Suc (cnt x))
            \<and> find (entry_matches (classes w1) (class' e)) (catch p) \<noteq> None"
    then obtain c where c: "find (entry_matches (classes w1) (class' e)) (catch p) = Some c"
      by auto
    then have "c \<in> set (catch p)" by (auto simp: find_Some_iff)
    with a have i: "cnt (snd (invoke c (RecordBefore rt e 3) w1)) = Suc (cnt w1)" by blast
    obtain out x where x: "invoke c (RecordBefore rt e 3) w1 = (out, x)" by (cases "invoke c (RecordBefore rt e 3) w1")
    from a have "\<forall>x. cnt (snd (finally p x)) = id (cnt x)" by simp
    from Done_deferred_count[OF this, of True "VErr (Classified (RecordBefore rt e 3))" out x] i x
    have "cnt (snd (Done_deferred p True (VErr (Classified (RecordBefore rt e 3)))
                     (invoke c (RecordBefore rt e 3) w1))) = Suc (cnt w1)"
      by simp
    with d c show "\<exists>out w'. Done rt p w = Some (out, w') \<and> cnt w' = Suc (cnt w1)"
      by (metis option.simps(5) prod.collapse)
  }
  {
    assume a: "p = CatchAll (Catch (Catch q (Some Y) hY) (Some X) hX) hAll \<and> catch q = []
            \<and> class' e = Some X \<and> ErrorClass_Is (classes w1) (Some X) (Some Y) = Some True"
    then have "find (entry_matches (classes w1) (class' e)) (catch p)
                 = Some \<lparr>match = Some Y, handler = hY, anyhandler = None\<rparr>"
      by (simp add: catch_registration entry_matches_def)
    with d show "Done rt p w
                = Some (Done_deferred p True (VErr (Classified (RecordBefore rt e 3)))
                          (call1 hY (RecordBefore rt e 3) w1))"
      by (simp add: invoke_def)
  }
qed

lemma fruit_plan_parts:
  "call (main fruit_plan) test_start
     = (Panicked (VErr (Classified apple_emsg)), test_start\<lparr>stdout := [''function called'']\<rparr>)"
  "catch fruit_plan
     = [\<lparr>match = Some FruitError, handler = Some (\<lambda>e. Println ''fruit handler called''),
          anyhandler = None\<rparr>,
        \<lparr>match = Some AppleError, handler = Some (\<lambda>e. Println ''apple handler called''),
          anyhandler = None\<rparr>,
        \<lparr>match = None, handler = None,
          anyhandler = Some (\<lambda>e. Println ''catch wildcard called'')\<rparr>]"
  "finally fruit_plan x = (Returned (), x\<lparr>stdout := stdout x @ [''finally block called'']\<rparr>)"
  by (simp_all add: fruit_plan_def catch_registration main_registration finally_registration
        call_def function_called_def panic_def Println_def test_start_def)

theorem Done_first_match_wins_witness:
  "call (main fruit_plan) test_start
     = (Panicked (VErr (Classified apple_emsg)), test_start\<lparr>stdout := [''function called'']\<rparr>)
   \<and> forest (classes (test_start\<lparr>stdout := [''function called'']\<rparr>))
   \<and> ErrorClass_Is test_classes (Some AppleError) (Some FruitError) = Some True
   \<and> Done test_runtime fruit_plan test_start
       = Some (Returned (),
               test_start\<lparr>stdout := [''function called'', ''fruit handler called'',
                                      ''finally block called'']\<rparr>)
   \<and> handlers_called (test_start\<lparr>stdout := [''function called'', ''fruit handler called'',
                                      ''finally block called'']\<rparr>) = 1"
proof -
  let ?w1 = "test_start\<lparr>stdout := [''function called'']\<rparr>"
  have f: "forest (classes ?w1)"
    by (simp add: test_start_def forest_test_classes)
  have v: "case class' apple_emsg of None \<Rightarrow> True | Some r \<Rightarrow> r < length (classes ?w1)"
    by (simp add: apple_emsg_def test_start_def length_test_classes AppleError_def)
  have c: "classes ?w1 = test_classes" "class' apple_emsg = Some AppleError"
    by (simp_all add: test_start_def apple_emsg_def)
  have m: "find (entry_matches test_classes (Some AppleError)) (catch fruit_plan)
             = Some \<lparr>match = Some FruitError, handler = Some (\<lambda>e. Println ''fruit handler called''),
                      anyhandler = None\<rparr>"
    by (simp add: fruit_plan_parts entry_matches_def Is_test_classes)
  have h: "\<forall>c \<in> set (catch fruit_plan). \<forall>a x. handlers_called (snd (invoke c a x)) = Suc (handlers_called x)"
    by (simp add: fruit_plan_parts invoke_def call1_def Println_def handlers_called_def)
  have k: "\<forall>x. handlers_called (snd (finally fruit_plan x)) = handlers_called x"
    by (simp add: fruit_plan_parts handlers_called_def)
  note t = Done_first_match_wins[OF fruit_plan_parts(1) f v, where rt = test_runtime
             and cnt = handlers_called]
  have "Done test_runtime fruit_plan test_start
          = Some (Done_deferred fruit_plan True
                    (VErr (Classified (RecordBefore test_runtime apple_emsg 3)))
                    (call1 (Some (\<lambda>e. Println ''fruit handler called''))
                       (RecordBefore test_runtime apple_emsg 3) ?w1))"
    by (rule t[THEN conjunct2, THEN conjunct2, rule_format,
               where q = "Finally (Do (Some (function_called (VErr (Classified apple_emsg)))))
                            (Some (Println ''finally block called''))"
                 and Y = FruitError and X = AppleError
                 and hX = "Some (\<lambda>e. Println ''apple handler called'')"
                 and hAll = "Some (\<lambda>e. Println ''catch wildcard called'')"])
       (simp add: fruit_plan_def catch_registration c Is_test_classes)
  then have d: "Done test_runtime fruit_plan test_start
       = Some (Returned (),
               test_start\<lparr>stdout := [''function called'', ''fruit handler called'',
                                      ''finally block called'']\<rparr>)"
    by (simp add: call1_def Println_def Done_deferred_def fruit_plan_parts(3))
  have "\<exists>out w'. Done test_runtime fruit_plan test_start = Some (out, w')
                     \<and> handlers_called w' = Suc (handlers_called ?w1)"
    by (rule t[THEN conjunct2, THEN conjunct1, rule_format]) (simp add: h k c m)
  with d have n: "handlers_called (test_start\<lparr>stdout := [''function called'', ''fruit handler called'',
                                      ''finally block called'']\<rparr>) = 1"
    by (simp add: handlers_called_def)
  from fruit_plan_parts(1) f d n Is_test_classes(1) show ?thesis by simp
qed

lemma find_skips:
  "\<forall>t \<in> set pre. \<not> P t \<Longrightarrow> P c \<Longrightarrow> find P (pre @ c # post) = Some c"
  by (induction pre) simp_all

lemma catching_plan_parts:
  "call (main (catching_plan v)) w = (Panicked v, w\<lparr>stdout := stdout w @ [''function called'']\<rparr>)"
  "catch (catching_plan v) = catch fruit_plan"
  "finally (catching_plan v) = finally fruit_plan"
  by (simp_all add: catching_plan_def call_def function_called_def panic_def Println_def)

lemma finally_plan_parts:
  "call (main (finally_plan v)) w = (Panicked v, w\<lparr>stdout := stdout w @ [''function called'']\<rparr>)"
  "catch (finally_plan v) = []"
  "finally (finally_plan v) x = (Returned (), x\<lparr>stdout := stdout x @ [''finally block called'']\<rparr>)"
  by (simp_all add: finally_plan_def catch_registration main_registration finally_registration
        call_def function_called_def panic_def Println_def)

text \<open>
  C3.  When the block panics with a plain error, \<open>Done\<close> calls the handler of the
  first wildcard entry with that error, whatever typed entries stand before it, and no
  other handler.  Without a wildcard entry no handler is called, and once \<open>finally\<close>
  has returned the panic goes on with the very payload it had.
\<close>

theorem Done_plain_error:
  assumes "call (main p) w = (Panicked (VErr (ErrorString m)), w1)"
  shows "Done rt p w
           = Some (case find (\<lambda>c. match c = None) (catch p) of
                     None \<Rightarrow> Done_deferred p False (VErr (ErrorString m)) (Returned (), w1)
                   | Some c \<Rightarrow> Done_deferred p True (VErr (ErrorString m))
                                 (call1 (anyhandler c) (Some (ErrorString m)) w1))
       \<and> (catch p = pre @ c # post \<and> (\<forall>t \<in> set pre. match t \<noteq> None) \<and> match c = None
          \<longrightarrow> Done rt p w
                = Some (Done_deferred p True (VErr (ErrorString m))
                          (call1 (anyhandler c) (Some (ErrorString m)) w1)))
       \<and> ((\<forall>t \<in> set (catch p). match t \<noteq> None)
          \<longrightarrow> Done rt p w
                = Some (case finally p w1 of
                          (Panicked v, w2) \<Rightarrow> (Panicked v, w2)
                        | (Returned u, w2) \<Rightarrow> (Panicked (VErr (ErrorString m)), w2)))"
proof (intro conjI impI)
  show d: "Done rt p w
           = Some (case find (\<lambda>c. match c = None) (catch p) of
                     None \<Rightarrow> Done_deferred p False (VErr (ErrorString m)) (Returned (), w1)
                   | Some c \<Rightarrow> Done_deferred p True (VErr (ErrorString m))
                                 (call1 (anyhandler c) (Some (ErrorString m)) w1))"
    using assms by (rule Done_plain)
  {
    assume "catch p = pre @ c # post \<and> (\<forall>t \<in> set pre. match t \<noteq> None) \<and> match c = None"
    then have "find (\<lambda>c. match c = None) (catch p) = Some c"
      using find_skips[of pre "\<lambda>c. match c = None" c post] by simp
    with d show "Done rt p w
                = Some (Done_deferred p True (VErr (ErrorString m))
                          (call1 (anyhandler c) (Some (ErrorString m)) w1))"
      by simp
  }
  {
    assume "\<forall>t \<in> set (catch p). match t \<noteq> None"
    then have "find (\<lambda>c. match c = None) (catch p) = None"
      by (simp add: find_None_iff)
    with d show "Done rt p w
                = Some (case finally p w1 of
                          (Panicked v, w2) \<Rightarrow> (Panicked v, w2)
                        | (Returned u, w2) \<Rightarrow> (Panicked (VErr (ErrorString m)), w2))"
      by (simp add: Done_deferred_def split: prod.splits result.splits)
  }
qed

theorem Done_plain_error_witness:
  "call (main (catching_plan (VErr (ErrorString ''any error'')))) test_start
     = (Panicked (VErr (ErrorString ''any error'')), test_start\<lparr>stdout := [''function called'']\<rparr>)
   \<and> Done test_runtime (catching_plan (VErr (ErrorString ''any error''))) test_start
       = Some (Returned (),
               test_start\<lparr>stdout := [''function called'', ''catch wildcard called'',
                                      ''finally block called'']\<rparr>)
   \<and> Done test_runtime (finally_plan (VErr (ErrorString ''inner error''))) test_start
       = Some (Panicked (VErr (ErrorString ''inner error'')),
               test_start\<lparr>stdout := [''function called'', ''finally block called'']\<rparr>)"
proof -
  let ?w1 = "test_start\<lparr>stdout := [''function called'']\<rparr>"
  have m1: "call (main (catching_plan (VErr (ErrorString ''any error'')))) test_start
     = (Panicked (VErr (ErrorString ''any error'')), ?w1)"
    by (simp add: catching_plan_parts test_start_def)
  have m2: "call (main (finally_plan (VErr (ErrorString ''inner error'')))) test_start
     = (Panicked (VErr (ErrorString ''inner error'')), ?w1)"
    by (simp add: finally_plan_parts test_start_def)
  have "Done test_runtime (catching_plan (VErr (ErrorString ''any error''))) test_start
       = Some (Done_deferred (catching_plan (VErr (ErrorString ''any error''))) True
                 (VErr (ErrorString ''any error''))
                 (call1 (Some (\<lambda>e. Println ''catch wildcard called''))
                    (Some (ErrorString ''any error'')) ?w1))"
    by (rule Done_plain_error[OF m1, THEN conjunct2, THEN conjunct1, rule_format,
          where c = "\<lparr>match = None, handler = None,
                       anyhandler = Some (\<lambda>e. Println ''catch wildcard called'')\<rparr>"
            and pre = "[\<lparr>match = Some FruitError, handler = Some (\<lambda>e. Println ''fruit handler called''),
                         anyhandler = None\<rparr>,
                       \<lparr>match = Some AppleError, handler = Some (\<lambda>e. Println ''apple handler called''),
                         anyhandler = None\<rparr>]"
            and post = "[]", simplified])
       (simp add: catching_plan_parts fruit_plan_parts)
  then have d1: "Done test_runtime (catching_plan (VErr (ErrorString ''any error''))) test_start
       = Some (Returned (),
               test_start\<lparr>stdout := [''function called'', ''catch wildcard called'',
                                      ''finally block called'']\<rparr>)"
    by (simp add: call1_def Println_def Done_deferred_def catching_plan_parts fruit_plan_parts)
  have "Done test_runtime (finally_plan (VErr (ErrorString ''inner error''))) test_start
       = Some (case finally (finally_plan (VErr (ErrorString ''inner error''))) ?w1 of
                 (Panicked v, w2) \<Rightarrow> (Panicked v, w2)
               | (Returned u, w2) \<Rightarrow> (Panicked (VErr (ErrorString ''inner error'')), w2))"
    by (rule Done_plain_error[OF m2, THEN conjunct2, THEN conjunct2, rule_format])
       (simp add: finally_plan_parts)
  then have d2: "Done test_runtime (finally_plan (VErr (ErrorString ''inner error''))) test_start
       = Some (Panicked (VErr (ErrorString ''inner error'')),
               test_start\<lparr>stdout := [''function called'', ''finally block called'']\<rparr>)"
    by (simp add: finally_plan_parts)
  from m1 d1 d2 show ?thesis by simp
qed

text \<open>
  C10.  What \<open>Done\<close> makes of a block that panicked with a nil payload depends on what
  the runtime leaves for \<^verbatim>\<open>recover()\<close>.  Where it is \<^verbatim>\<open>nil\<close> (\<^verbatim>\<open>panicnil\<close> on), \<open>Done\<close>
  calls no handler, whatever entries are registered: it runs \<open>finally\<close> in the state
  the block left and returns (unless \<open>finally\<close> panics), exactly as it does when the
  block returns in that state.  Where it is the runtime's \<^verbatim>\<open>*PanicNilError\<close>
  (\<^verbatim>\<open>panicnil\<close> off), \<open>Done\<close> treats the fault as the plain error it is: the handler
  of the first wildcard entry is called with that error, and without a wildcard entry no
  handler is called and, once \<open>finally\<close> has returned, \<open>Done\<close> panics with that error.
\<close>

theorem Done_nil_payload:
  assumes "call (main p) w = (Panicked VNil, w1)"
  shows "(panicnil rt \<longrightarrow>
            Done rt p w
              = Some (case finally p w1 of
                        (Panicked v, w2) \<Rightarrow> (Panicked v, w2)
                      | (Returned u, w2) \<Rightarrow> (Returned (), w2))
          \<and> Done rt (p\<lparr>catch := cs\<rparr>) w = Done rt p w
          \<and> (finally q = finally p \<and> call (main q) w = (Returned (), w1)
             \<longrightarrow> Done rt q w = Done rt p w))
       \<and> (\<not> panicnil rt \<longrightarrow>
            Done rt p w
              = Some (case find (\<lambda>c. match c = None) (catch p) of
                        None \<Rightarrow> Done_deferred p False (VErr PanicNilError) (Returned (), w1)
                      | Some c \<Rightarrow> Done_deferred p True (VErr PanicNilError)
                                    (call1 (anyhandler c) (Some PanicNilError) w1))
          \<and> ((\<forall>t \<in> set (catch p). match t \<noteq> None)
             \<longrightarrow> Done rt p w
                   = Some (case finally p w1 of
                             (Panicked v, w2) \<Rightarrow> (Panicked v, w2)
                           | (Returned u, w2) \<Rightarrow> (Panicked (VErr PanicNilError), w2))))"
proof (intro conjI impI)
  assume on: "panicnil rt"
  have r: "recover rt (fst (call (main p) w)) = VNil" "snd (call (main p) w) = w1"
    using assms on by (simp_all add: recover_def)
  from Done_nil[OF r(1)] r(2)
  show d: "Done rt p w
           = Some (case finally p w1 of
                     (Panicked v, w2) \<Rightarrow> (Panicked v, w2)
                   | (Returned u, w2) \<Rightarrow> (Returned (), w2))"
    by (simp add: Done_deferred_def split: prod.splits result.splits)
  have "recover rt (fst (call (main (p\<lparr>catch := cs\<rparr>)) w)) = VNil"
    using r by simp
  from Done_nil[OF this] r(2) d
  show "Done rt (p\<lparr>catch := cs\<rparr>) w = Done rt p w"
    by (simp add: Done_deferred_def split: prod.splits result.splits)
  {
    assume a: "finally q = finally p \<and> call (main q) w = (Returned (), w1)"
    then have "recover rt (fst (call (main q) w)) = VNil"
      by (simp add: recover_def)
    from Done_nil[OF this] a d
    show "Done rt q w = Done rt p w"
      by (simp add: Done_deferred_def split: prod.splits result.splits)
  }
next
  assume off: "\<not> panicnil rt"
  then have "recover rt (Panicked VNil) = VErr (ErrorString ''panic called with nil argument'')"
    by (simp add: recover_def PanicNilError_def)
  from Done_recovered_plain[OF assms this, folded PanicNilError_def]
  show d: "Done rt p w
           = Some (case find (\<lambda>c. match c = None) (catch p) of
                     None \<Rightarrow> Done_deferred p False (VErr PanicNilError) (Returned (), w1)
                   | Some c \<Rightarrow> Done_deferred p True (VErr PanicNilError)
                                 (call1 (anyhandler c) (Some PanicNilError) w1))" .
  {
    assume "\<forall>t \<in> set (catch p). match t \<noteq> None"
    then have "find (\<lambda>c. match c = None) (catch p) = None"
      by (simp add: find_None_iff)
    with d show "Done rt p w
                = Some (case finally p w1 of
                          (Panicked v, w2) \<Rightarrow> (Panicked v, w2)
                        | (Returned u, w2) \<Rightarrow> (Panicked (VErr PanicNilError), w2))"
      by (simp add: Done_deferred_def split: prod.splits result.splits)
  }
qed

theorem Done_nil_payload_witness:
  "call (main (catching_plan VNil)) test_start
     = (Panicked VNil, test_start\<lparr>stdout := [''function called'']\<rparr>)
   \<and> call (main (catching_plan VNil\<lparr>main := Some (Println ''function called'')\<rparr>)) test_start
       = (Returned (), test_start\<lparr>stdout := [''function called'']\<rparr>)
   \<and> Done (test_runtime\<lparr>panicnil := True\<rparr>) (catching_plan VNil) test_start
       = Some (Returned (),
               test_start\<lparr>stdout := [''function called'', ''finally block called'']\<rparr>)
   \<and> Done (test_runtime\<lparr>panicnil := True\<rparr>)
         (catching_plan VNil\<lparr>main := Some (Println ''function called'')\<rparr>) test_start
       = Some (Returned (),
               test_start\<lparr>stdout := [''function called'', ''finally block called'']\<rparr>)
   \<and> Done (test_runtime\<lparr>panicnil := False\<rparr>) (catching_plan VNil) test_start
       = Some (Returned (),
               test_start\<lparr>stdout := [''function called'', ''catch wildcard called'',
                                      ''finally block called'']\<rparr>)
   \<and> call (main (finally_plan VNil)) test_start
       = (Panicked VNil, test_start\<lparr>stdout := [''function called'']\<rparr>)
   \<and> Done (test_runtime\<lparr>panicnil := False\<rparr>) (finally_plan VNil) test_start
       = Some (Panicked (VErr PanicNilError),
               test_start\<lparr>stdout := [''function called'', ''finally block called'']\<rparr>)"
proof -
  let ?w1 = "test_start\<lparr>stdout := [''function called'']\<rparr>"
  let ?q = "catching_plan VNil\<lparr>main := Some (Println ''function called'')\<rparr>"
  let ?on = "test_runtime\<lparr>panicnil := True\<rparr>"
  let ?off = "test_runtime\<lparr>panicnil := False\<rparr>"
  have m: "call (main (catching_plan VNil)) test_start = (Panicked VNil, ?w1)"
    by (simp add: catching_plan_parts test_start_def)
  have mq': "call (Some (Println ''function called'')) test_start = (Returned (), ?w1)"
    by (simp add: call_def Println_def test_start_def)
  then have mq: "call (main ?q) test_start = (Returned (), ?w1)"
    by simp
  have mf: "call (main (finally_plan VNil)) test_start = (Panicked VNil, ?w1)"
    by (simp add: finally_plan_parts test_start_def)
  have on: "panicnil ?on" and off: "\<not> panicnil ?off"
    by simp_all
  note t = Done_nil_payload[OF m, where rt = ?on and q = ?q, THEN conjunct1, THEN mp, OF on]
  from t have d: "Done ?on (catching_plan VNil) test_start
       = Some (Returned (),
               test_start\<lparr>stdout := [''function called'', ''finally block called'']\<rparr>)"
    by (simp add: catching_plan_parts fruit_plan_parts)
  have e: "Done ?on ?q test_start = Done ?on (catching_plan VNil) test_start"
    by (rule t[THEN conjunct2, THEN conjunct2, rule_format]) (simp add: mq')
  note u = Done_nil_payload[OF m, where rt = ?off, THEN conjunct2, THEN mp, OF off]
  from u[THEN conjunct1]
  have c: "Done ?off (catching_plan VNil) test_start
       = Some (Returned (),
               test_start\<lparr>stdout := [''function called'', ''catch wildcard called'',
                                      ''finally block called'']\<rparr>)"
    by (simp add: catching_plan_parts fruit_plan_parts Done_deferred_def call1_def Println_def)
  note v = Done_nil_payload[OF mf, where rt = ?off, THEN conjunct2, THEN mp, OF off]
  have "Done ?off (finally_plan VNil) test_start
       = Some (case finally (finally_plan VNil) ?w1 of
                 (Panicked v, w2) \<Rightarrow> (Panicked v, w2)
               | (Returned u, w2) \<Rightarrow> (Panicked (VErr PanicNilError), w2))"
    by (rule v[THEN conjunct2, rule_format]) (simp add: finally_plan_parts)
  then have f: "Done ?off (finally_plan VNil) test_start
       = Some (Panicked (VErr PanicNilError),
               test_start\<lparr>stdout := [''function called'', ''finally block called'']\<rparr>)"
    by (simp add: finally_plan_parts)
  from m mq' d e c mf f show ?thesis by simp
qed

text \<open>
  C10, as the claim has it, fails where \<^verbatim>\<open>panicnil\<close> is off: around a block that
  panics with \<^verbatim>\<open>nil\<close>, the plan of the examples calls its wildcard handler, which it
  does not when the block returns, and the plan with a cleanup and no handler panics.
\<close>

theorem Done_nil_payload_counterexample:
  "\<not> panicnil test_runtime
   \<and> call (main (catching_plan VNil)) test_start
       = (Panicked VNil, test_start\<lparr>stdout := [''function called'']\<rparr>)
   \<and> Done test_runtime (catching_plan VNil) test_start
       = Some (Returned (),
               test_start\<lparr>stdout := [''function called'', ''catch wildcard called'',
                                      ''finally block called'']\<rparr>)
   \<and> handlers_called (test_start\<lparr>stdout := [''function called'', ''catch wildcard called'',
                                             ''finally block called'']\<rparr>) = 1
   \<and> Done test_runtime (catching_plan VNil\<lparr>main := Some (Println ''function called'')\<rparr>)
         test_start
       = Some (Returned (),
               test_start\<lparr>stdout := [''function called'', ''finally block called'']\<rparr>)
   \<and> call (main (finally_plan VNil)) test_start
       = (Panicked VNil, test_start\<lparr>stdout := [''function called'']\<rparr>)
   \<and> Done test_runtime (finally_plan VNil) test_start
       = Some (Panicked (VErr PanicNilError),
               test_start\<lparr>stdout := [''function called'', ''finally block called'']\<rparr>)"
proof -
  let ?w1 = "test_start\<lparr>stdout := [''function called'']\<rparr>"
  let ?q = "catching_plan VNil\<lparr>main := Some (Println ''function called'')\<rparr>"
  have off: "\<not> panicnil test_runtime"
    by (simp add: test_runtime_def)
  then have r: "recover test_runtime (Panicked VNil)
                  = VErr (ErrorString ''panic called with nil argument'')"
    by (simp add: recover_def PanicNilError_def)
  have m: "call (main (catching_plan VNil)) test_start = (Panicked VNil, ?w1)"
    by (simp add: catching_plan_parts test_start_def)
  from Done_recovered_plain[OF m r]
  have c: "Done test_runtime (catching_plan VNil) test_start
       = Some (Returned (),
               test_start\<lparr>stdout := [''function called'', ''catch wildcard called'',
                                      ''finally block called'']\<rparr>)"
    by (simp add: catching_plan_parts fruit_plan_parts Done_deferred_def call1_def Println_def)
  have n: "handlers_called (test_start\<lparr>stdout := [''function called'', ''catch wildcard called'',
                                                 ''finally block called'']\<rparr>) = 1"
    by (simp add: handlers_called_def)
  have "recover test_runtime (fst (call (main ?q) test_start)) = VNil"
    by (simp add: call_def Println_def recover_def)
  from Done_nil[OF this]
  have q: "Done test_runtime ?q test_start
       = Some (Returned (),
               test_start\<lparr>stdout := [''function called'', ''finally block called'']\<rparr>)"
    by (simp add: Done_deferred_def catching_plan_parts fruit_plan_parts call_def Println_def
          test_start_def)
  have mf: "call (main (finally_plan VNil)) test_start = (Panicked VNil, ?w1)"
    by (simp add: finally_plan_parts test_start_def)
  from Done_recovered_plain[OF mf r]
  have f: "Done test_runtime (finally_plan VNil) test_start
       = Some (Panicked (VErr PanicNilError),
               test_start\<lparr>stdout := [''function called'', ''finally block called'']\<rparr>)"
    by (simp add: finally_plan_parts Done_deferred_def PanicNilError_def)
  from off m c n q mf f show ?thesis by simp
qed

lemma GetData_SetData:
  "GetData (Some (Classified (SetData k v x))) k = v"
  by (simp add: GetData_def SetData_def)

text \<open>
  C4.  When the block panics with a payload that is no error, \<open>Done\<close> builds an Error of
  the class \<open>UnknownPanicError\<close> whose message is the printed payload and whose
  side-table holds the payload under \<open>OriginalErrorKey\<close>, so that \<open>GetData\<close> gives the
  payload back.  It calls the handler of the first entry that is the wildcard or whose
  class \<open>UnknownPanicError\<close> \<open>Is\<close>, with that Error; when no entry matches, no handler
  is called and the payload stays unconsumed.
\<close>

theorem Done_unknown_payload:
  assumes "call (main p) w = (Panicked rec, w1)" and "rec \<noteq> VNil" and "\<forall>x. rec \<noteq> VErr x"
    and "forest (classes w1)" and "deref (classes w1) UnknownPanicError = Some cls"
  shows "\<exists>pan w2.
           ErrorClass_NewWith rt (Some UnknownPanicError) (Sprint rt rec)
             [SetData OriginalErrorKey rec] w1 = Some (Returned (Some (Classified pan)), w2)
         \<and> class' pan = Some UnknownPanicError
         \<and> err pan = Some (ErrorString (Sprint rt rec))
         \<and> data pan = [(OriginalErrorKey, rec)]
         \<and> GetData (Some (Classified pan)) OriginalErrorKey = rec
         \<and> classes w2 = classes w1
         \<and> (\<not> flags cls AND LogOnCreation > 0 \<longrightarrow> w2 = w1)
         \<and> Done rt p w
             = Some (case find (entry_matches (classes w1) (Some UnknownPanicError)) (catch p) of
                       None \<Rightarrow> Done_deferred p False rec (Returned (), w1)
                     | Some c \<Rightarrow> Done_deferred p True rec (invoke c pan w2))"
proof -
  let ?pan = "Error (Some (ErrorString (Sprint rt rec))) (Some UnknownPanicError)
                (if flags cls AND CaptureStack > 0
                 then Some (take (stackCaptureSize rt) (Stack rt)) else None)
                [] [(OriginalErrorKey, rec)]"
  from NewWith_unknown[OF assms(4,5), of rt "Sprint rt rec" rec]
  obtain w2 where
    n: "ErrorClass_NewWith rt (Some UnknownPanicError) (Sprint rt rec)
          [SetData OriginalErrorKey rec] w1 = Some (Returned (Some (Classified ?pan)), w2)"
    and c: "classes w2 = classes w1"
    and l: "\<not> flags cls AND LogOnCreation > 0 \<longrightarrow> w2 = w1"
    by blast
  have v: "UnknownPanicError < length (classes w1)"
    using assms(5) by (simp add: deref_Some_iff)
  note d = Done_other[OF assms(1,2,3,4) v n]
  have g: "GetData (Some (Classified ?pan)) OriginalErrorKey = rec"
    by (simp add: GetData_def)
  show ?thesis
    apply (rule exI[of _ ?pan])
    apply (rule exI[of _ w2])
    using n c l d g apply simp
    done
qed

lemma unknown_plan_parts:
  "call (main (unknown_plan v)) w = (Panicked v, w\<lparr>stdout := stdout w @ [''function called'']\<rparr>)"
  "catch (unknown_plan v)
     = [\<lparr>match = Some RockError, handler = Some (\<lambda>e. Println ''catch a rock''), anyhandler = None\<rparr>,
        \<lparr>match = Some UnknownPanicError,
          handler = Some (\<lambda>e. Println (''catch UnknownPanicError called: ''
                                       @ Sprint test_runtime
                                           (GetData (Some (Classified e)) OriginalErrorKey))),
          anyhandler = None\<rparr>,
        \<lparr>match = None, handler = None,
          anyhandler = Some (\<lambda>e. Println ''catch wildcard called'')\<rparr>]"
  "finally (unknown_plan v) x = (Returned (), x\<lparr>stdout := stdout x @ [''finally block called'']\<rparr>)"
  by (simp_all add: unknown_plan_def catch_registration main_registration finally_registration
        call_def function_called_def panic_def Println_def)

theorem Done_unknown_payload_witness:
  "call (main (unknown_plan (VInt 3))) test_start
     = (Panicked (VInt 3), test_start\<lparr>stdout := [''function called'']\<rparr>)
   \<and> forest (classes (test_start\<lparr>stdout := [''function called'']\<rparr>))
   \<and> Done test_runtime (unknown_plan (VInt 3)) test_start
       = Some (Returned (),
               test_start\<lparr>stdout := [''function called'', ''catch UnknownPanicError called: 3'',
                                      ''finally block called'']\<rparr>)"
proof -
  let ?w1 = "test_start\<lparr>stdout := [''function called'']\<rparr>"
  have m: "call (main (unknown_plan (VInt 3))) test_start = (Panicked (VInt 3), ?w1)"
    by (simp add: unknown_plan_parts test_start_def)
  have f: "forest (classes ?w1)"
    by (simp add: test_start_def forest_test_classes)
  have u: "deref (classes ?w1) UnknownPanicError
             = Some \<lparr>parent = Some HierarchicalError, name = ''Unknown Error'', flags = CaptureStack\<rparr>"
    by (simp add: test_start_def deref_test_classes)
  have nl: "\<not> (CaptureStack AND LogOnCreation > 0)"
    by (simp add: CaptureStack_def LogOnCreation_def)
  have fm: "find (entry_matches (classes ?w1) (Some UnknownPanicError)) (catch (unknown_plan (VInt 3)))
      = Some \<lparr>match = Some UnknownPanicError,
          handler = Some (\<lambda>e. Println (''catch UnknownPanicError called: ''
                                       @ Sprint test_runtime
                                           (GetData (Some (Classified e)) OriginalErrorKey))),
          anyhandler = None\<rparr>"
    by (simp add: unknown_plan_parts entry_matches_def Is_test_classes test_start_def)
  from Done_unknown_payload[OF m _ _ f u, of test_runtime]
  obtain pan w2 where
    g: "GetData (Some (Classified pan)) OriginalErrorKey = VInt 3"
    and w2: "w2 = ?w1"
    and d: "Done test_runtime (unknown_plan (VInt 3)) test_start
             = Some (case find (entry_matches (classes ?w1) (Some UnknownPanicError))
                            (catch (unknown_plan (VInt 3))) of
                       None \<Rightarrow> Done_deferred (unknown_plan (VInt 3)) False (VInt 3) (Returned (), ?w1)
                     | Some c \<Rightarrow> Done_deferred (unknown_plan (VInt 3)) True (VInt 3) (invoke c pan w2))"
    using nl by auto
  have sp: "Sprint test_runtime (VInt 3) = ''3''"
    by (simp add: test_runtime_def)
  from d[unfolded fm] have "Done test_runtime (unknown_plan (VInt 3)) test_start
       = Some (Returned (),
               test_start\<lparr>stdout := [''function called'', ''catch UnknownPanicError called: 3'',
                                      ''finally block called'']\<rparr>)"
    by (simp add: w2 g sp invoke_def call1_def Println_def Done_deferred_def unknown_plan_parts)
  with m f show ?thesis by simp
qed

section \<open>Re-raising\<close>

lemma New_constructs:
  assumes "forest (classes w)" and "deref (classes w) c = Some cls"
  shows "\<exists>pe w'. ErrorClass_New rt (Some c) msg w = Some (Returned (Some (Classified pe)), w')
           \<and> class' pe = Some c \<and> err pe = Some (ErrorString msg)"
proof -
  have "\<forall>ec. ErrorString msg = Classified ec \<longrightarrow>
           (case class' ec of None \<Rightarrow> True | Some r \<Rightarrow> r < length (classes w))
         \<and> Error_Is (classes w) ec (Some c) \<noteq> Some True
         \<and> (\<forall>k \<in> set []. Error_Is (classes w) ec k \<noteq> Some True)"
    by simp
  from Wrap_constructs[OF assms(1) this assms(2), of msg rt]
  show ?thesis
    by (auto simp: ErrorClass_New_def)
qed

text \<open>
  C5.  \<open>Repanic\<close> of an Error of the class \<open>UnknownPanicError\<close> panics with the value
  its side-table holds under \<open>OriginalErrorKey\<close>, not with the Error: with the payload
  \<open>SetData\<close> attached, a reference being the same reference.  \<open>Repanic\<close> of anything
  that is not such an Error (nil, a plain error, an Error of another class) panics with
  that value as it is.  \<open>Repanic\<close> of an Error of the class \<open>UnknownPanicError\<close> with
  nothing under the key panics with a new Error of the class \<open>ProgrammerError\<close>.
\<close>

theorem Repanic_unwraps:
  assumes "forest (classes w)"
    and "\<forall>x. e = Some (Classified x) \<longrightarrow>
           (case class' x of None \<Rightarrow> True | Some r \<Rightarrow> r < length (classes w))"
  shows "(\<forall>x. e = Some (Classified x)
              \<and> Error_Is (classes w) x (Some UnknownPanicError) = Some True
              \<and> GetData e OriginalErrorKey \<noteq> VNil
            \<longrightarrow> Repanic rt e w = Some (Panicked (GetData e OriginalErrorKey), w))
       \<and> (\<forall>x rec. e = Some (Classified (SetData OriginalErrorKey rec x))
              \<and> Error_Is (classes w) x (Some UnknownPanicError) = Some True \<and> rec \<noteq> VNil
            \<longrightarrow> Repanic rt e w = Some (Panicked rec, w))
       \<and> ((\<forall>x. e = Some (Classified x)
               \<longrightarrow> Error_Is (classes w) x (Some UnknownPanicError) \<noteq> Some True)
            \<longrightarrow> Repanic rt e w = Some (Panicked (iface e), w))
       \<and> (\<forall>x cls. e = Some (Classified x)
              \<and> Error_Is (classes w) x (Some UnknownPanicError) = Some True
              \<and> GetData e OriginalErrorKey = VNil
              \<and> deref (classes w) ProgrammerError = Some cls
            \<longrightarrow> (\<exists>pe w'. Repanic rt e w = Some (Panicked (VErr (Classified pe)), w')
                     \<and> class' pe = Some ProgrammerError))"
proof (intro conjI allI impI)
  fix x
  assume "e = Some (Classified x)
              \<and> Error_Is (classes w) x (Some UnknownPanicError) = Some True
              \<and> GetData e OriginalErrorKey \<noteq> VNil"
  then show "Repanic rt e w = Some (Panicked (GetData e OriginalErrorKey), w)"
    by (auto simp: Repanic_def Let_def)
next
  fix x rec
  assume a: "e = Some (Classified (SetData OriginalErrorKey rec x))
              \<and> Error_Is (classes w) x (Some UnknownPanicError) = Some True \<and> rec \<noteq> VNil"
  then have "Error_Is (classes w) (SetData OriginalErrorKey rec x) (Some UnknownPanicError) = Some True"
    by (simp add: Error_Is_def SetData_def)
  with a show "Repanic rt e w = Some (Panicked rec, w)"
    by (auto simp: Repanic_def Let_def GetData_SetData)
next
  assume a: "\<forall>x. e = Some (Classified x)
               \<longrightarrow> Error_Is (classes w) x (Some UnknownPanicError) \<noteq> Some True"
  show "Repanic rt e w = Some (Panicked (iface e), w)"
  proof (cases e)
    case None
    then show ?thesis by (simp add: Repanic_def)
  next
    case (Some g)
    show ?thesis
    proof (cases g)
      case (ErrorString m)
      with Some show ?thesis by (simp add: Repanic_def)
    next
      case (Classified x)
      with Some assms(2) have "case class' x of None \<Rightarrow> True | Some r \<Rightarrow> r < length (classes w)"
        by simp
      from Error_Is_total[OF assms(1) this, of "Some UnknownPanicError"] a Some Classified
      have "Error_Is (classes w) x (Some UnknownPanicError) = Some False" by auto
      with Some Classified show ?thesis by (simp add: Repanic_def)
    qed
  qed
next
  fix x cls
  assume a: "e = Some (Classified x)
              \<and> Error_Is (classes w) x (Some UnknownPanicError) = Some True
              \<and> GetData e OriginalErrorKey = VNil
              \<and> deref (classes w) ProgrammerError = Some cls"
  then have "deref (classes w) ProgrammerError = Some cls" by simp
  from New_constructs[OF assms(1) this, of rt "Errorf rt ''misuse of try internals''"]
  obtain pe w' where
    "ErrorClass_New rt (Some ProgrammerError) (Errorf rt ''misuse of try internals'') w
       = Some (Returned (Some (Classified pe)), w')"
    and "class' pe = Some ProgrammerError"
    by blast
  with a show "\<exists>pe w'. Repanic rt e w = Some (Panicked (VErr (Classified pe)), w')
                     \<and> class' pe = Some ProgrammerError"
    by (auto simp: Repanic_def Let_def iface_def)
qed


theorem Repanic_unwraps_witness:
  "forest (classes test_start)
   \<and> Error_Is (classes test_start) empty_wrapper (Some UnknownPanicError) = Some True
   \<and> Repanic test_runtime (Some (Classified wrapped_object)) test_start
       = Some (Panicked (VRef 7), test_start)
   \<and> Repanic test_runtime (Some (Classified apple_emsg)) test_start
       = Some (Panicked (VErr (Classified apple_emsg)), test_start)
   \<and> Repanic test_runtime (Some (ErrorString ''any error'')) test_start
       = Some (Panicked (VErr (ErrorString ''any error'')), test_start)
   \<and> Repanic test_runtime None test_start = Some (Panicked VNil, test_start)
   \<and> (\<exists>pe w'. Repanic test_runtime (Some (Classified empty_wrapper)) test_start
                  = Some (Panicked (VErr (Classified pe)), w')
              \<and> class' pe = Some ProgrammerError)"
proof -
  have f: "forest (classes test_start)"
    by (simp add: test_start_def forest_test_classes)
  have c: "classes test_start = test_classes" by (simp add: test_start_def)
  have u: "Error_Is test_classes empty_wrapper (Some UnknownPanicError) = Some True"
    by (simp add: Error_Is_def empty_wrapper_def Is_test_classes)
  have a: "Error_Is test_classes apple_emsg (Some UnknownPanicError) = Some False"
    by (simp add: Error_Is_def apple_emsg_def Is_test_classes)
  have ce: "class' empty_wrapper = Some UnknownPanicError" "data empty_wrapper = []"
    by (simp_all add: empty_wrapper_def)
  have ca: "class' apple_emsg = Some AppleError"
    by (simp add: apple_emsg_def)
  have v: "UnknownPanicError < length test_classes" "AppleError < length test_classes"
    by (simp_all add: length_test_classes class_addresses)
  have r1: "Repanic test_runtime (Some (Classified wrapped_object)) test_start
       = Some (Panicked (VRef 7), test_start)"
    by (rule Repanic_unwraps[OF f, THEN conjunct2, THEN conjunct1, rule_format,
          where x = empty_wrapper])
       (simp_all add: wrapped_object_def c u v SetData_def ce)
  have r2: "Repanic test_runtime (Some (Classified apple_emsg)) test_start
       = Some (Panicked (iface (Some (Classified apple_emsg))), test_start)"
    by (rule Repanic_unwraps[OF f, THEN conjunct2, THEN conjunct2, THEN conjunct1, rule_format])
       (simp_all add: c a v ca)
  have r3: "Repanic test_runtime (Some (ErrorString ''any error'')) test_start
       = Some (Panicked (iface (Some (ErrorString ''any error''))), test_start)"
    by (rule Repanic_unwraps[OF f, THEN conjunct2, THEN conjunct2, THEN conjunct1, rule_format])
       simp_all
  have r4: "Repanic test_runtime None test_start = Some (Panicked (iface None), test_start)"
    by (rule Repanic_unwraps[OF f, THEN conjunct2, THEN conjunct2, THEN conjunct1, rule_format])
       simp_all
  have r5: "\<exists>pe w'. Repanic test_runtime (Some (Classified empty_wrapper)) test_start
                  = Some (Panicked (VErr (Classified pe)), w')
              \<and> class' pe = Some ProgrammerError"
    by (rule Repanic_unwraps[OF f, THEN conjunct2, THEN conjunct2, THEN conjunct2, rule_format,
          where x = empty_wrapper
            and cls = "\<lparr>parent = Some HierarchicalError, name = ''Programmer Error'',
                        flags = CaptureStack OR LogOnCreation\<rparr>"])
       (simp_all add: c u v ce deref_test_classes GetData_def)
  from f u r1 r2 r3 r4 r5 show ?thesis
    by (simp add: iface_def c)
qed

section \<open>Cleanup and masking\<close>

lemma Wrap_ErrorString_returns:
  assumes "Wrap rt (Some c) (Some (ErrorString m)) [] w = Some (r, w')"
  shows "\<exists>pe. r = Returned (Some (Classified pe))"
  using assms
  by (auto simp: Wrap_def Let_def ErrorClass_String_def
        split: option.splits result.splits if_splits)

lemma NewWith_returns:
  assumes "ErrorClass_NewWith rt (Some c) msg opts w = Some (r, w')"
  shows "\<exists>pe. r = Returned (Some (Classified pe))"
proof -
  from assms obtain r0 where w: "Wrap rt (Some c) (Some (ErrorString msg)) [] w = Some (r0, w')"
    by (auto simp: ErrorClass_NewWith_def split: option.splits result.splits prod.splits)
  from Wrap_ErrorString_returns[OF this] obtain pe where "r0 = Returned (Some (Classified pe))"
    by blast
  with w assms show ?thesis
    by (auto simp: ErrorClass_NewWith_def)
qed


lemma Wrap_state:
  assumes "Wrap rt e c cs w = Some (r, w')"
  shows "\<exists>l. w' = w\<lparr>logged := l\<rparr>"
proof -
  from assms have "w' = w \<or> (\<exists>s. w' = LogWithStack rt s w)"
    by (auto simp: Wrap_def Let_def
          simp del: Error_Error.simps error_Error.simps
          split: option.splits result.splits bool.splits if_splits)
  then show ?thesis
  proof
    assume "w' = w"
    then have "w' = w\<lparr>logged := logged w\<rparr>" by simp
    then show ?thesis by (rule exI)
  next
    assume "\<exists>s. w' = LogWithStack rt s w"
    then show ?thesis by (auto simp: LogWithStack_def Let_def)
  qed
qed

lemma NewWith_state:
  assumes "ErrorClass_NewWith rt e msg opts w = Some (r, w')"
  shows "\<exists>l. w' = w\<lparr>logged := l\<rparr>"
proof -
  from assms obtain r0 where "Wrap rt e (Some (ErrorString msg)) [] w = Some (r0, w')"
    by (auto simp: ErrorClass_NewWith_def split: option.splits result.splits prod.splits)
  then show ?thesis by (rule Wrap_state)
qed

lemma handler_called_Cons: "handler_called cs x hr \<Longrightarrow> handler_called (c # cs) x hr"
  by (auto simp: handler_called_def)

lemma Done_Error_shape:
  "Done_Error e cs w = Some (consumed, hr) \<Longrightarrow>
     (if consumed then handler_called cs w hr
      else hr = (Returned (), w) \<and> (\<forall>c \<in> set cs. match c \<noteq> None))"
proof (induction cs)
  case Nil
  then show ?case by simp
next
  case (Cons c cs)
  show ?case
  proof (cases "match c = None")
    case True
    with Cons.prems show ?thesis by (auto simp: handler_called_def)
  next
    case False
    show ?thesis
    proof (cases "Error_Is (classes w) e (match c)")
      case None
      with False Cons.prems show ?thesis by auto
    next
      case (Some b)
      show ?thesis
      proof (cases b)
        case True
        with False Some Cons.prems show ?thesis by (auto simp: handler_called_def)
      next
        case f: False
        with False Some Cons.prems have "Done_Error e cs w = Some (consumed, hr)" by auto
        from Cons.IH[OF this] False show ?thesis
          by (cases consumed) (auto intro: handler_called_Cons)
      qed
    qed
  qed
qed

lemma Done_error_shape:
  "Done_error x cs w = (consumed, hr) \<Longrightarrow>
     (if consumed then handler_called cs w hr
      else hr = (Returned (), w) \<and> (\<forall>c \<in> set cs. match c \<noteq> None))"
proof (induction cs)
  case Nil
  then show ?case by simp
next
  case (Cons c cs)
  show ?case
  proof (cases "match c = None")
    case True
    with Cons.prems show ?thesis by (auto simp: handler_called_def)
  next
    case False
    with Cons.prems have "Done_error x cs w = (consumed, hr)" by auto
    from Cons.IH[OF this] False show ?thesis
      by (cases consumed) (auto intro: handler_called_Cons)
  qed
qed

lemma Done_default_shape:
  "Done_default rt rec cs w = Some (consumed, hr) \<Longrightarrow>
     (if consumed then (\<exists>l. handler_called cs (w\<lparr>logged := l\<rparr>) hr)
      else hr = (Returned (), w) \<and> (\<forall>c \<in> set cs. match c \<noteq> None))"
proof (induction cs)
  case Nil
  then show ?case by simp
next
  case (Cons c cs)
  let ?n = "ErrorClass_NewWith rt (Some UnknownPanicError) (Sprint rt rec)
              [SetData OriginalErrorKey rec] w"
  have built: "\<And>r w'. ?n = Some (r, w') \<Longrightarrow>
                 (\<exists>pe. r = Returned (Some (Classified pe))) \<and> (\<exists>l. w' = w\<lparr>logged := l\<rparr>)"
    using NewWith_returns NewWith_state by blast
  show ?case
  proof (cases "match c = None")
    case True
    show ?thesis
    proof (cases ?n)
      case None
      with True Cons.prems show ?thesis by simp
    next
      case (Some rw)
      obtain r w' where rw: "rw = (r, w')" by (cases rw)
      from built[of r w'] Some rw obtain pe l where
        pe: "r = Returned (Some (Classified pe))" and l: "w' = w\<lparr>logged := l\<rparr>" by auto
      with True Some rw Cons.prems
      have "consumed" and "hr = call1 (anyhandler c) (Some (Classified pe)) (w\<lparr>logged := l\<rparr>)"
        by auto
      with True have "consumed \<and> handler_called (c # cs) (w\<lparr>logged := l\<rparr>) hr"
        unfolding handler_called_def by (intro conjI bexI[of _ c]) auto
      then show ?thesis by auto
    qed
  next
    case False
    show ?thesis
    proof (cases "ErrorClass_Is (classes w) (Some UnknownPanicError) (match c)")
      case None
      with False Cons.prems show ?thesis by auto
    next
      case (Some b)
      show ?thesis
      proof (cases b)
        case True
        show ?thesis
        proof (cases ?n)
          case None
          with False Some True Cons.prems show ?thesis by auto
        next
          case s: (Some rw)
          obtain r w' where rw: "rw = (r, w')" by (cases rw)
          from built[of r w'] s rw obtain pe l where
            pe: "r = Returned (Some (Classified pe))" and l: "w' = w\<lparr>logged := l\<rparr>" by auto
          with False Some True s rw Cons.prems
          have "consumed" and "hr = call1 (handler c) pe (w\<lparr>logged := l\<rparr>)"
            by auto
          with False have "consumed \<and> handler_called (c # cs) (w\<lparr>logged := l\<rparr>) hr"
            unfolding handler_called_def by (intro conjI bexI[of _ c]) auto
          then show ?thesis by auto
        qed
      next
        case f: False
        with False Some Cons.prems have "Done_default rt rec cs w = Some (consumed, hr)" by auto
        from Cons.IH[OF this] False show ?thesis
          by (cases consumed) (auto intro: handler_called_Cons)
      qed
    qed
  qed
qed

lemma Done_shape_default:
  assumes "Done_default rt rec (catch p) w1 = Some (consumed, hr)" and "rec \<noteq> VNil"
  shows "if consumed
         then (rec = VNil \<and> hr = (Returned (), w1))
              \<or> (rec \<noteq> VNil \<and> (\<exists>l. handler_called (catch p) (w1\<lparr>logged := l\<rparr>) hr))
         else rec \<noteq> VNil \<and> hr = (Returned (), w1) \<and> (\<forall>c \<in> set (catch p). match c \<noteq> None)"
  using Done_default_shape[OF assms(1)] assms(2) by (cases consumed) simp_all

lemma Done_shape:
  assumes "Done rt p w = Some r"
  shows "\<exists>consumed rec hr.
           r = Done_deferred p consumed rec hr
         \<and> (if consumed
             then (recover rt (fst (call (main p) w)) = VNil \<and> hr = (Returned (), snd (call (main p) w)))
                  \<or> (recover rt (fst (call (main p) w)) \<noteq> VNil
                      \<and> (\<exists>l. handler_called (catch p) (snd (call (main p) w)\<lparr>logged := l\<rparr>) hr))
             else recover rt (fst (call (main p) w)) \<noteq> VNil
                  \<and> hr = (Returned (), snd (call (main p) w))
                  \<and> (\<forall>c \<in> set (catch p). match c \<noteq> None))"
proof -
  let ?G = "\<exists>consumed rec hr.
           r = Done_deferred p consumed rec hr
         \<and> (if consumed
             then (recover rt (fst (call (main p) w)) = VNil \<and> hr = (Returned (), snd (call (main p) w)))
                  \<or> (recover rt (fst (call (main p) w)) \<noteq> VNil
                      \<and> (\<exists>l. handler_called (catch p) (snd (call (main p) w)\<lparr>logged := l\<rparr>) hr))
             else recover rt (fst (call (main p) w)) \<noteq> VNil
                  \<and> hr = (Returned (), snd (call (main p) w))
                  \<and> (\<forall>c \<in> set (catch p). match c \<noteq> None))"
  obtain out w1 where m: "call (main p) w = (out, w1)" by (cases "call (main p) w")
  have same: "\<And>cs hr. handler_called cs w1 hr \<Longrightarrow> \<exists>l. handler_called cs (w1\<lparr>logged := l\<rparr>) hr"
  proof -
    fix cs hr assume "handler_called cs w1 hr"
    then have "handler_called cs (w1\<lparr>logged := logged w1\<rparr>) hr" by simp
    then show "\<exists>l. handler_called cs (w1\<lparr>logged := l\<rparr>) hr" by (rule exI)
  qed
  have other: "\<And>rec. rec \<noteq> VNil \<Longrightarrow> recover rt out = rec \<Longrightarrow>
      (case Done_default rt rec (catch p) w1 of
         None \<Rightarrow> None
       | Some (consumed, r) \<Rightarrow> Some (Done_deferred p consumed rec r)) = Some r \<Longrightarrow> ?G"
  proof -
    fix rec assume n: "rec \<noteq> VNil" and rv: "recover rt out = rec"
      and "(case Done_default rt rec (catch p) w1 of
         None \<Rightarrow> None
       | Some (consumed, r) \<Rightarrow> Some (Done_deferred p consumed rec r)) = Some r"
    then obtain consumed hr where
      l: "Done_default rt rec (catch p) w1 = Some (consumed, hr)"
      and r: "r = Done_deferred p consumed rec hr"
      by (auto split: option.splits)
    from Done_shape_default[OF l n] r m rv show ?G
      by (intro exI[of _ consumed] exI[of _ rec] exI[of _ hr]) simp
  qed
  show ?thesis
  proof (cases "recover rt out")
    case VNil
    with assms m have "r = Done_deferred p True VNil (Returned (), w1)"
      by (auto simp: Done_def Let_def)
    with m VNil show ?thesis
      by (intro exI[of _ True] exI[of _ VNil] exI[of _ "(Returned (), w1)"]) simp
  next
    case (VInt i)
    with assms m show ?thesis
      by (intro other[of "VInt i"]) (auto simp: Done_def Let_def split: option.splits)
  next
    case (VStr s)
    with assms m show ?thesis
      by (intro other[of "VStr s"]) (auto simp: Done_def Let_def split: option.splits)
  next
    case (VRef a)
    with assms m show ?thesis
      by (intro other[of "VRef a"]) (auto simp: Done_def Let_def split: option.splits)
  next
    case (VErr g)
    show ?thesis
    proof (cases g)
      case (ErrorString s)
      obtain consumed hr where l: "Done_error (ErrorString s) (catch p) w1 = (consumed, hr)"
        by (cases "Done_error (ErrorString s) (catch p) w1") auto
      with assms m VErr ErrorString have r: "r = Done_deferred p consumed (VErr (ErrorString s)) hr"
        by (auto simp: Done_def Let_def)
      from Done_error_shape[OF l] same[of "catch p" hr] r m VErr show ?thesis
        by (intro exI[of _ consumed] exI[of _ "VErr (ErrorString s)"] exI[of _ hr])
           (cases consumed; simp)
    next
      case (Classified e)
      with assms m VErr obtain consumed hr where
        l: "Done_Error (RecordBefore rt e 3) (catch p) w1 = Some (consumed, hr)"
        and r: "r = Done_deferred p consumed (VErr (Classified (RecordBefore rt e 3))) hr"
        by (auto simp: Done_def Let_def split: option.splits)
      from Done_Error_shape[OF l] same[of "catch p" hr] r m VErr show ?thesis
        by (intro exI[of _ consumed] exI[of _ "VErr (Classified (RecordBefore rt e 3))"]
              exI[of _ hr])
           (cases consumed; simp)
    qed
  qed
qed


lemma Done_returns:
  assumes "call (main p) w = (out, w1)" and "forest (classes w1)"
    and "UnknownPanicError < length (classes w1)"
    and "\<forall>e. out = Panicked (VErr (Classified e))
           \<longrightarrow> (case class' e of None \<Rightarrow> True | Some r \<Rightarrow> r < length (classes w1))"
  shows "\<exists>r. Done rt p w = Some r"
proof (cases "recover rt out")
  case VNil
  with assms(1) Done_nil[where p = p and w = w and rt = rt] show ?thesis by simp
next
  case (VErr g)
  show ?thesis
  proof (cases g)
    case (ErrorString m)
    with VErr assms(1) Done_recovered_plain[of p w out w1 rt m] show ?thesis by simp
  next
    case (Classified e)
    with VErr have o: "out = Panicked (VErr g)"
      by (simp add: recover_cases)
    with Classified assms(4)
    have "case class' e of None \<Rightarrow> True | Some r \<Rightarrow> r < length (classes w1)"
      by simp
    from Done_classified[OF _ assms(2) this, of p w rt] o Classified assms(1)
    show ?thesis by simp
  qed
next
  case (VInt i)
  then have o: "out = Panicked (VInt i)"
    by (simp add: recover_cases)
  from assms(3) obtain cls where "deref (classes w1) UnknownPanicError = Some cls"
    by (auto simp: deref_def)
  from NewWith_unknown[OF assms(2) this, of rt "Sprint rt (VInt i)" "VInt i"]
  obtain pan w2 where "ErrorClass_NewWith rt (Some UnknownPanicError) (Sprint rt (VInt i))
           [SetData OriginalErrorKey (VInt i)] w1 = Some (Returned (Some (Classified pan)), w2)"
    by blast
  from Done_other[OF _ _ _ assms(2,3) this, of p w] o assms(1) show ?thesis by simp
next
  case (VStr s)
  then have o: "out = Panicked (VStr s)"
    by (simp add: recover_cases)
  from assms(3) obtain cls where "deref (classes w1) UnknownPanicError = Some cls"
    by (auto simp: deref_def)
  from NewWith_unknown[OF assms(2) this, of rt "Sprint rt (VStr s)" "VStr s"]
  obtain pan w2 where "ErrorClass_NewWith rt (Some UnknownPanicError) (Sprint rt (VStr s))
           [SetData OriginalErrorKey (VStr s)] w1 = Some (Returned (Some (Classified pan)), w2)"
    by blast
  from Done_other[OF _ _ _ assms(2,3) this, of p w] o assms(1) show ?thesis by simp
next
  case (VRef a)
  then have o: "out = Panicked (VRef a)"
    by (simp add: recover_cases)
  from assms(3) obtain cls where "deref (classes w1) UnknownPanicError = Some cls"
    by (auto simp: deref_def)
  from NewWith_unknown[OF assms(2) this, of rt "Sprint rt (VRef a)" "VRef a"]
  obtain pan w2 where "ErrorClass_NewWith rt (Some UnknownPanicError) (Sprint rt (VRef a))
           [SetData OriginalErrorKey (VRef a)] w1 = Some (Returned (Some (Classified pan)), w2)"
    by blast
  from Done_other[OF _ _ _ assms(2,3) this, of p w] o assms(1) show ?thesis by simp
qed

lemma Done_deferred_finally_panics:
  "fst (finally p (snd hr)) = Panicked v \<Longrightarrow> fst (Done_deferred p consumed rec hr) = Panicked v"
  by (auto simp: Done_deferred_def split: prod.splits result.splits)

lemma Done_deferred_finally_returns:
  "fst (finally p (snd hr)) = Returned () \<Longrightarrow>
   fst (Done_deferred p True rec hr) = fst hr"
  by (auto simp: Done_deferred_def split: prod.splits result.splits)

lemma handler_called_count:
  assumes "handler_called cs x hr"
    and "\<forall>c \<in> set cs. \<forall>x. (\<forall>a. cnt (snd (call1 (anyhandler c) a x)) = cnt x)
                           \<and> (\<forall>a. cnt (snd (call1 (handler c) a x)) = cnt x)"
  shows "cnt (snd hr) = cnt x"
  using assms by (auto simp: handler_called_def)

lemma handler_called_panics:
  assumes "handler_called cs x hr"
    and "\<forall>c \<in> set cs. \<forall>x. (match c = None \<longrightarrow> (\<forall>a. fst (call1 (anyhandler c) a x) = Panicked v))
                           \<and> (match c \<noteq> None \<longrightarrow> (\<forall>a. fst (call1 (handler c) a x) = Panicked v))"
  shows "fst hr = Panicked v"
  using assms by (auto simp: handler_called_def)

lemma Finally_composes:
  "finally (foldl Finally p fs) = compose_cleanups (rev fs) (finally p)"
proof (induction fs rule: rev_induct)
  case Nil
  show ?case by (rule ext) simp
next
  case (snoc f fs)
  show ?case
  proof (rule ext)
    fix x
    show "finally (foldl Finally p (fs @ [f])) x
            = compose_cleanups (rev (fs @ [f])) (finally p) x"
      by (simp add: finally_registration snoc.IH split: prod.splits result.splits)
  qed
qed

lemma Finally_keeps:
  "main (foldl Finally p fs) = main p \<and> catch (foldl Finally p fs) = catch p"
  by (induction fs rule: rev_induct) (simp_all add: main_registration catch_registration)

lemma Done_count:
  assumes d: "Done rt p w = Some (out, w')"
    and mn: "\<forall>x. cnt (snd (call (main p) x)) = cnt x"
    and hs: "\<forall>c \<in> set (catch p). \<forall>x. (\<forall>a. cnt (snd (call1 (anyhandler c) a x)) = cnt x)
                                       \<and> (\<forall>a. cnt (snd (call1 (handler c) a x)) = cnt x)"
    and lg: "\<forall>x l. cnt (x\<lparr>logged := l\<rparr>) = cnt x"
    and fn: "\<forall>x. cnt (snd (finally p x)) = Suc (cnt x)"
  shows "cnt w' = Suc (cnt w)"
proof -
  from Done_shape[OF d] obtain consumed rec hr where
    r: "(out, w') = Done_deferred p consumed rec hr"
    and s: "if consumed
             then (recover rt (fst (call (main p) w)) = VNil \<and> hr = (Returned (), snd (call (main p) w)))
                  \<or> (recover rt (fst (call (main p) w)) \<noteq> VNil
                      \<and> (\<exists>l. handler_called (catch p) (snd (call (main p) w)\<lparr>logged := l\<rparr>) hr))
             else recover rt (fst (call (main p) w)) \<noteq> VNil
                  \<and> hr = (Returned (), snd (call (main p) w))
                  \<and> (\<forall>c \<in> set (catch p). match c \<noteq> None)"
    by blast
  have "cnt (snd hr) = cnt w"
  proof (cases "hr = (Returned (), snd (call (main p) w))")
    case True
    with mn show ?thesis by simp
  next
    case False
    with s obtain l where "handler_called (catch p) (snd (call (main p) w)\<lparr>logged := l\<rparr>) hr"
      by (auto split: if_splits)
    from handler_called_count[OF this hs] mn lg show ?thesis by simp
  qed
  moreover from Done_deferred_count[OF fn, of consumed rec "fst hr" "snd hr"]
  have "cnt (snd (Done_deferred p consumed rec hr)) = Suc (cnt (snd hr))" by simp
  ultimately show ?thesis
    using r by (metis snd_conv)
qed

lemma Finally_counts_new:
  assumes "\<forall>x. cnt (snd (call f x)) = Suc (cnt x)" and "\<forall>x. cnt (snd (finally p x)) = cnt x"
  shows "cnt (snd (finally (Finally p f) x)) = Suc (cnt x)"
proof (cases "call f x")
  case (Pair r y)
  with assms(1)[rule_format, of x] have "cnt y = Suc (cnt x)" by simp
  with Pair assms(2)[rule_format, of y] show ?thesis
    by (cases r) (simp_all add: finally_registration)
qed

lemma Finally_counts_old:
  assumes "\<forall>x. fst (call f x) = Returned () \<and> cnt (snd (call f x)) = cnt x"
    and "\<forall>x. cnt (snd (finally p x)) = Suc (cnt x)"
  shows "cnt (snd (finally (Finally p f) x)) = Suc (cnt x)"
proof (cases "call f x")
  case (Pair r y)
  with assms(1)[rule_format, of x] have "r = Returned ()" "cnt y = cnt x" by simp_all
  with Pair assms(2)[rule_format, of y] show ?thesis
    by (simp add: finally_registration)
qed

text \<open>
  C2.  \<open>Done\<close> returns whenever the class store is a forest that holds the classes
  involved.  Whenever it returns, \<open>finally\<close> has run exactly once: a count that
  \<open>finally\<close> raises by one, and that the block, the handlers and the log leave alone,
  is raised by exactly one, however the block ended and whatever a handler did.  If
  \<open>finally\<close> panics, \<open>Done\<close> panics with the payload of \<open>finally\<close>.  If the block
  panicked, a wildcard is registered and the handlers panic with a payload of their
  own, then after \<open>finally\<close> has returned \<open>Done\<close> panics with the handlers' payload.
  In particular, when the handler selected for an error, plain or classified, panics
  and \<open>finally\<close> then returns, \<open>Done\<close> panics with the payload of the handler, in the
  state \<open>finally\<close> left.

  The callback \<open>finally\<close> is the composition of the cleanups registered: \<open>Do\<close> starts
  with one that does nothing, and registering the cleanups \<open>fs\<close> one after the other by
  \<open>Finally\<close> leaves the block and the entries as they are and makes \<open>finally\<close> run them
  in the reverse order, the last one registered first, each only if the one before it
  returned, and then what was registered before them.  So when \<open>Done\<close> returns for a
  plan on which \<open>Finally\<close> has registered \<open>f\<close>, a count that \<open>f\<close> raises by one and
  everything else leaves alone is raised by exactly one, and so is a count that the
  cleanups registered earlier raise by one, provided \<open>f\<close> returns and leaves it alone.
\<close>

theorem Done_finally_once:
  "(forest (classes (snd (call (main p) w)))
      \<and> UnknownPanicError < length (classes (snd (call (main p) w)))
      \<and> (\<forall>e. fst (call (main p) w) = Panicked (VErr (Classified e))
             \<longrightarrow> (case class' e of
                    None \<Rightarrow> True
                  | Some r \<Rightarrow> r < length (classes (snd (call (main p) w)))))
    \<longrightarrow> (\<exists>r. Done rt p w = Some r))
   \<and> (Done rt p w = Some (out, w') \<longrightarrow>
        ((\<forall>x. cnt (snd (call (main p) x)) = cnt x)
           \<and> (\<forall>c \<in> set (catch p). \<forall>x. (\<forall>a. cnt (snd (call1 (anyhandler c) a x)) = cnt x)
                                       \<and> (\<forall>a. cnt (snd (call1 (handler c) a x)) = cnt x))
           \<and> (\<forall>x l. cnt (x\<lparr>logged := l\<rparr>) = cnt x)
           \<and> (\<forall>x. cnt (snd (finally p x)) = Suc (cnt x))
         \<longrightarrow> cnt w' = Suc (cnt w))
      \<and> ((\<forall>x. fst (finally p x) = Panicked v) \<longrightarrow> out = Panicked v)
      \<and> ((\<forall>x. fst (finally p x) = Returned ())
           \<and> (\<forall>c \<in> set (catch p). \<forall>x.
                  (match c = None \<longrightarrow> (\<forall>a. fst (call1 (anyhandler c) a x) = Panicked v))
                \<and> (match c \<noteq> None \<longrightarrow> (\<forall>a. fst (call1 (handler c) a x) = Panicked v)))
           \<and> (\<exists>c \<in> set (catch p). match c = None)
           \<and> recover rt (fst (call (main p) w)) \<noteq> VNil
         \<longrightarrow> out = Panicked v))
   \<and> (call (main p) w = (Panicked (VErr (ErrorString m)), wa)
        \<and> find (\<lambda>c. match c = None) (catch p) = Some c
        \<and> call1 (anyhandler c) (Some (ErrorString m)) wa = (Panicked v, wb)
        \<and> finally p wb = (Returned (), wc)
      \<longrightarrow> Done rt p w = Some (Panicked v, wc))
   \<and> (call (main p) w = (Panicked (VErr (Classified e)), wa)
        \<and> forest (classes wa)
        \<and> (case class' e of None \<Rightarrow> True | Some r \<Rightarrow> r < length (classes wa))
        \<and> find (entry_matches (classes wa) (class' e)) (catch p) = Some c
        \<and> invoke c (RecordBefore rt e 3) wa = (Panicked v, wb)
        \<and> finally p wb = (Returned (), wc)
      \<longrightarrow> Done rt p w = Some (Panicked v, wc))
   \<and> finally (Do blk) = (\<lambda>x. (Returned (), x))
   \<and> main (foldl Finally p fs) = main p
   \<and> catch (foldl Finally p fs) = catch p
   \<and> finally (foldl Finally p fs) = compose_cleanups (rev fs) (finally p)
   \<and> (Done rt (Finally p f) w = Some (outf, wd) \<longrightarrow>
        ((\<forall>x. cnt (snd (call (main p) x)) = cnt x)
           \<and> (\<forall>c \<in> set (catch p). \<forall>x. (\<forall>a. cnt (snd (call1 (anyhandler c) a x)) = cnt x)
                                       \<and> (\<forall>a. cnt (snd (call1 (handler c) a x)) = cnt x))
           \<and> (\<forall>x l. cnt (x\<lparr>logged := l\<rparr>) = cnt x)
           \<and> (\<forall>x. cnt (snd (call f x)) = Suc (cnt x))
           \<and> (\<forall>x. cnt (snd (finally p x)) = cnt x)
         \<longrightarrow> cnt wd = Suc (cnt w))
      \<and> ((\<forall>x. cnt (snd (call (main p) x)) = cnt x)
           \<and> (\<forall>c \<in> set (catch p). \<forall>x. (\<forall>a. cnt (snd (call1 (anyhandler c) a x)) = cnt x)
                                       \<and> (\<forall>a. cnt (snd (call1 (handler c) a x)) = cnt x))
           \<and> (\<forall>x l. cnt (x\<lparr>logged := l\<rparr>) = cnt x)
           \<and> (\<forall>x. fst (call f x) = Returned () \<and> cnt (snd (call f x)) = cnt x)
           \<and> (\<forall>x. cnt (snd (finally p x)) = Suc (cnt x))
         \<longrightarrow> cnt wd = Suc (cnt w)))"
proof (intro conjI impI)
  assume a: "forest (classes (snd (call (main p) w)))
      \<and> UnknownPanicError < length (classes (snd (call (main p) w)))
      \<and> (\<forall>e. fst (call (main p) w) = Panicked (VErr (Classified e))
             \<longrightarrow> (case class' e of
                    None \<Rightarrow> True
                  | Some r \<Rightarrow> r < length (classes (snd (call (main p) w)))))"
  obtain out0 w1 where m: "call (main p) w = (out0, w1)" by (cases "call (main p) w")
  with a show "\<exists>r. Done rt p w = Some r"
    by (intro Done_returns[OF m]) (auto split: option.splits)
next
  assume d: "Done rt p w = Some (out, w')"
  from Done_shape[OF d] obtain consumed rec hr where
    r: "(out, w') = Done_deferred p consumed rec hr"
    and s: "if consumed
             then (recover rt (fst (call (main p) w)) = VNil \<and> hr = (Returned (), snd (call (main p) w)))
                  \<or> (recover rt (fst (call (main p) w)) \<noteq> VNil
                      \<and> (\<exists>l. handler_called (catch p) (snd (call (main p) w)\<lparr>logged := l\<rparr>) hr))
             else recover rt (fst (call (main p) w)) \<noteq> VNil
                  \<and> hr = (Returned (), snd (call (main p) w))
                  \<and> (\<forall>c \<in> set (catch p). match c \<noteq> None)"
    by blast
  {
    assume c: "(\<forall>x. cnt (snd (call (main p) x)) = cnt x)
           \<and> (\<forall>c \<in> set (catch p). \<forall>x. (\<forall>a. cnt (snd (call1 (anyhandler c) a x)) = cnt x)
                                       \<and> (\<forall>a. cnt (snd (call1 (handler c) a x)) = cnt x))
           \<and> (\<forall>x l. cnt (x\<lparr>logged := l\<rparr>) = cnt x)
           \<and> (\<forall>x. cnt (snd (finally p x)) = Suc (cnt x))"
    then show "cnt w' = Suc (cnt w)"
      by (intro Done_count[OF d]) simp_all
  }
  {
    assume "\<forall>x. fst (finally p x) = Panicked v"
    then have "fst (finally p (snd hr)) = Panicked v" by simp
    from Done_deferred_finally_panics[OF this, of consumed rec] r
    show "out = Panicked v" by (metis fst_conv)
  }
  {
    assume c: "(\<forall>x. fst (finally p x) = Returned ())
           \<and> (\<forall>c \<in> set (catch p). \<forall>x.
                  (match c = None \<longrightarrow> (\<forall>a. fst (call1 (anyhandler c) a x) = Panicked v))
                \<and> (match c \<noteq> None \<longrightarrow> (\<forall>a. fst (call1 (handler c) a x) = Panicked v)))
           \<and> (\<exists>c \<in> set (catch p). match c = None)
           \<and> recover rt (fst (call (main p) w)) \<noteq> VNil"
    with s have t: "consumed" by (auto split: if_splits)
    with s c obtain l where "handler_called (catch p) (snd (call (main p) w)\<lparr>logged := l\<rparr>) hr"
      by auto
    from handler_called_panics[OF this, of v] c have h: "fst hr = Panicked v" by simp
    from c have "fst (finally p (snd hr)) = Returned ()" by simp
    from Done_deferred_finally_returns[OF this, of rec] r t h
    show "out = Panicked v" by (metis fst_conv)
  }
next
  assume a: "call (main p) w = (Panicked (VErr (ErrorString m)), wa)
        \<and> find (\<lambda>c. match c = None) (catch p) = Some c
        \<and> call1 (anyhandler c) (Some (ErrorString m)) wa = (Panicked v, wb)
        \<and> finally p wb = (Returned (), wc)"
  then have "call (main p) w = (Panicked (VErr (ErrorString m)), wa)" by simp
  from Done_plain[OF this, of rt] a show "Done rt p w = Some (Panicked v, wc)"
    by (simp add: Done_deferred_def)
next
  assume a: "call (main p) w = (Panicked (VErr (Classified e)), wa)
        \<and> forest (classes wa)
        \<and> (case class' e of None \<Rightarrow> True | Some r \<Rightarrow> r < length (classes wa))
        \<and> find (entry_matches (classes wa) (class' e)) (catch p) = Some c
        \<and> invoke c (RecordBefore rt e 3) wa = (Panicked v, wb)
        \<and> finally p wb = (Returned (), wc)"
  then have "call (main p) w = (Panicked (VErr (Classified e)), wa)" "forest (classes wa)"
    "case class' e of None \<Rightarrow> True | Some r \<Rightarrow> r < length (classes wa)"
    by simp_all
  from Done_classified[OF this, of rt] a show "Done rt p w = Some (Panicked v, wc)"
    by (simp add: Done_deferred_def)
next
  show "finally (Do blk) = (\<lambda>x. (Returned (), x))"
    by (simp add: Do_def)
next
  show "main (foldl Finally p fs) = main p"
    by (simp add: Finally_keeps)
next
  show "catch (foldl Finally p fs) = catch p"
    by (simp add: Finally_keeps)
next
  show "finally (foldl Finally p fs) = compose_cleanups (rev fs) (finally p)"
    by (rule Finally_composes)
next
  assume d: "Done rt (Finally p f) w = Some (outf, wd)"
  {
    assume c: "(\<forall>x. cnt (snd (call (main p) x)) = cnt x)
           \<and> (\<forall>c \<in> set (catch p). \<forall>x. (\<forall>a. cnt (snd (call1 (anyhandler c) a x)) = cnt x)
                                       \<and> (\<forall>a. cnt (snd (call1 (handler c) a x)) = cnt x))
           \<and> (\<forall>x l. cnt (x\<lparr>logged := l\<rparr>) = cnt x)
           \<and> (\<forall>x. cnt (snd (call f x)) = Suc (cnt x))
           \<and> (\<forall>x. cnt (snd (finally p x)) = cnt x)"
    then have "\<forall>x. cnt (snd (finally (Finally p f) x)) = Suc (cnt x)"
      by (intro allI Finally_counts_new) simp_all
    with c show "cnt wd = Suc (cnt w)"
      by (intro Done_count[OF d]) (simp_all add: main_registration catch_registration)
  }
  {
    assume c: "(\<forall>x. cnt (snd (call (main p) x)) = cnt x)
           \<and> (\<forall>c \<in> set (catch p). \<forall>x. (\<forall>a. cnt (snd (call1 (anyhandler c) a x)) = cnt x)
                                       \<and> (\<forall>a. cnt (snd (call1 (handler c) a x)) = cnt x))
           \<and> (\<forall>x l. cnt (x\<lparr>logged := l\<rparr>) = cnt x)
           \<and> (\<forall>x. fst (call f x) = Returned () \<and> cnt (snd (call f x)) = cnt x)
           \<and> (\<forall>x. cnt (snd (finally p x)) = Suc (cnt x))"
    then have "\<forall>x. cnt (snd (finally (Finally p f) x)) = Suc (cnt x)"
      by (intro allI Finally_counts_old) simp_all
    with c show "cnt wd = Suc (cnt w)"
      by (intro Done_count[OF d]) (simp_all add: main_registration catch_registration)
  }
qed

lemma crash_in_catch_parts:
  "call (main crash_in_catch_plan) w
     = (Panicked (VErr (ErrorString ''any error'')), w\<lparr>stdout := stdout w @ [''function called'']\<rparr>)"
  "catch crash_in_catch_plan
     = [\<lparr>match = None, handler = None,
          anyhandler = Some (\<lambda>e w. panic (VErr (ErrorString ''zomg''))
                                     (snd (Println ''catch wildcard called'' w)))\<rparr>]"
  "finally crash_in_catch_plan x
     = (Returned (), x\<lparr>stdout := stdout x @ [''finally block called'']\<rparr>)"
  by (simp_all add: crash_in_catch_plan_def catch_registration main_registration
        finally_registration call_def function_called_def panic_def Println_def)

lemma crash_in_finally_parts:
  "call (main crash_in_finally_plan) w
     = (Returned (), w\<lparr>stdout := stdout w @ [''function called'']\<rparr>)"
  "catch crash_in_finally_plan
     = [\<lparr>match = None, handler = None,
          anyhandler = Some (\<lambda>e. Println ''catch wildcard called'')\<rparr>]"
  "finally crash_in_finally_plan x
     = (Panicked (VErr (ErrorString ''zomg'')),
        x\<lparr>stdout := stdout x @ [''finally block called'']\<rparr>)"
  by (simp_all add: crash_in_finally_plan_def catch_registration main_registration
        finally_registration call_def function_called_def panic_def Println_def)

lemma two_cleanups_parts:
  "two_cleanups_plan = foldl Finally crash_in_catch_plan [Some (Println ''second cleanup called'')]"
  "call (main two_cleanups_plan) w
     = (Panicked (VErr (ErrorString ''any error'')), w\<lparr>stdout := stdout w @ [''function called'']\<rparr>)"
  "catch two_cleanups_plan = catch crash_in_catch_plan"
  by (simp_all add: two_cleanups_plan_def main_registration catch_registration
        crash_in_catch_parts)

theorem Done_finally_once_witness:
  "Done test_runtime crash_in_catch_plan test_start
     = Some (Panicked (VErr (ErrorString ''zomg'')),
             test_start\<lparr>stdout := [''function called'', ''catch wildcard called'',
                                    ''finally block called'']\<rparr>)
   \<and> finally_called (test_start\<lparr>stdout := [''function called'', ''catch wildcard called'',
                                            ''finally block called'']\<rparr>)
       = Suc (finally_called test_start)
   \<and> Done test_runtime crash_in_finally_plan test_start
       = Some (Panicked (VErr (ErrorString ''zomg'')),
               test_start\<lparr>stdout := [''function called'', ''finally block called'']\<rparr>)
   \<and> finally two_cleanups_plan test_start
       = (Returned (),
          test_start\<lparr>stdout := [''second cleanup called'', ''finally block called'']\<rparr>)
   \<and> Done test_runtime two_cleanups_plan test_start
       = Some (Panicked (VErr (ErrorString ''zomg'')),
               test_start\<lparr>stdout := [''function called'', ''catch wildcard called'',
                                      ''second cleanup called'', ''finally block called'']\<rparr>)
   \<and> second_called (test_start\<lparr>stdout := [''function called'', ''catch wildcard called'',
                                           ''second cleanup called'', ''finally block called'']\<rparr>)
       = Suc (second_called test_start)
   \<and> finally_called (test_start\<lparr>stdout := [''function called'', ''catch wildcard called'',
                                            ''second cleanup called'', ''finally block called'']\<rparr>)
       = Suc (finally_called test_start)"
proof -
  let ?w1 = "test_start\<lparr>stdout := [''function called'']\<rparr>"
  let ?w2 = "test_start\<lparr>stdout := [''function called'', ''catch wildcard called'']\<rparr>"
  let ?w3 = "test_start\<lparr>stdout := [''function called'', ''catch wildcard called'',
                                     ''finally block called'']\<rparr>"
  let ?w4 = "test_start\<lparr>stdout := [''function called'', ''catch wildcard called'',
                                     ''second cleanup called'', ''finally block called'']\<rparr>"
  let ?zomg = "VErr (ErrorString ''zomg'')"
  let ?c = "\<lparr>match = None, handler = None,
             anyhandler = Some (\<lambda>e w. panic (VErr (ErrorString ''zomg''))
                                        (snd (Println ''catch wildcard called'' w)))\<rparr>
            :: unit test_world_ext check"
  let ?f = "Some (Println ''second cleanup called'') :: unit test_world_ext proc option"
  have s0: "stdout test_start = []" by (simp add: test_start_def)
  note t = Done_finally_once[where p = crash_in_catch_plan and w = test_start and rt = test_runtime
      and cnt = finally_called and v = ?zomg and out = "Panicked ?zomg" and w' = ?w3
      and m = "''any error''" and wa = ?w1 and c = ?c and wb = ?w2 and wc = ?w3]
  have d: "Done test_runtime crash_in_catch_plan test_start = Some (Panicked ?zomg, ?w3)"
    by (rule t[THEN conjunct2, THEN conjunct2, THEN conjunct1, THEN mp])
       (simp add: crash_in_catch_parts s0 call1_def panic_def Println_def)
  have cnt: "(\<forall>x. finally_called (snd (call (main crash_in_catch_plan) x)) = finally_called x)
           \<and> (\<forall>c \<in> set (catch crash_in_catch_plan). \<forall>x.
                  (\<forall>a. finally_called (snd (call1 (anyhandler c) a x)) = finally_called x)
                \<and> (\<forall>a. finally_called (snd (call1 (handler c) a x)) = finally_called x))
           \<and> (\<forall>x l. finally_called (x\<lparr>logged := l\<rparr>) = finally_called x)
           \<and> (\<forall>x. finally_called (snd (finally crash_in_catch_plan x)) = Suc (finally_called x))"
    by (simp add: crash_in_catch_parts finally_called_def call1_def panic_def Println_def)
  note u = t[THEN conjunct2, THEN conjunct1, THEN mp, OF d]
  have n: "finally_called ?w3 = Suc (finally_called test_start)"
    by (rule u[THEN conjunct1, THEN mp, OF cnt])
  have "recover test_runtime (fst (call (main crash_in_finally_plan) test_start)) = VNil"
    by (simp add: crash_in_finally_parts recover_def)
  from Done_nil[OF this]
  have d2: "Done test_runtime crash_in_finally_plan test_start
              = Some (Panicked ?zomg,
                      test_start\<lparr>stdout := [''function called'', ''finally block called'']\<rparr>)"
    by (simp add: Done_deferred_def crash_in_finally_parts s0)
  note g = Done_finally_once[where p = crash_in_catch_plan and fs = "[?f]",
      THEN conjunct2, THEN conjunct2, THEN conjunct2, THEN conjunct2, THEN conjunct2,
      THEN conjunct2, THEN conjunct2, THEN conjunct1]
  have fin: "finally two_cleanups_plan x
               = (Returned (), x\<lparr>stdout := stdout x @ [''second cleanup called'',
                                                       ''finally block called'']\<rparr>)" for x
    by (simp only: two_cleanups_parts(1) g)
       (simp add: crash_in_catch_parts call_def Println_def)
  then have f0: "finally two_cleanups_plan test_start
       = (Returned (),
          test_start\<lparr>stdout := [''second cleanup called'', ''finally block called'']\<rparr>)"
    by (simp add: s0)
  note t3 = Done_finally_once[where p = two_cleanups_plan and w = test_start
      and rt = test_runtime and v = ?zomg and m = "''any error''" and wa = ?w1 and c = ?c
      and wb = ?w2 and wc = ?w4]
  have d3: "Done test_runtime two_cleanups_plan test_start = Some (Panicked ?zomg, ?w4)"
    by (rule t3[THEN conjunct2, THEN conjunct2, THEN conjunct1, THEN mp])
       (simp add: two_cleanups_parts(2,3) crash_in_catch_parts fin s0 call1_def panic_def
          Println_def)
  note h = Done_finally_once[where p = crash_in_catch_plan and f = ?f and w = test_start
      and rt = test_runtime and outf = "Panicked ?zomg" and wd = ?w4 and cnt = second_called,
      THEN conjunct2, THEN conjunct2, THEN conjunct2, THEN conjunct2, THEN conjunct2,
      THEN conjunct2, THEN conjunct2, THEN conjunct2, THEN mp,
      OF d3[unfolded two_cleanups_plan_def]]
  have cf: "call ?f x = (Returned (), x\<lparr>stdout := stdout x @ [''second cleanup called'']\<rparr>)"
    for x
    by (simp add: call_def Println_def)
  have n2: "second_called ?w4 = Suc (second_called test_start)"
    by (rule h[THEN conjunct1, THEN mp])
       (simp add: crash_in_catch_parts cf second_called_def call1_def panic_def Println_def)
  note k = Done_finally_once[where p = crash_in_catch_plan and f = ?f and w = test_start
      and rt = test_runtime and outf = "Panicked ?zomg" and wd = ?w4 and cnt = finally_called,
      THEN conjunct2, THEN conjunct2, THEN conjunct2, THEN conjunct2, THEN conjunct2,
      THEN conjunct2, THEN conjunct2, THEN conjunct2, THEN mp,
      OF d3[unfolded two_cleanups_plan_def]]
  have n3: "finally_called ?w4 = Suc (finally_called test_start)"
    by (rule k[THEN conjunct2, THEN mp])
       (simp add: crash_in_catch_parts cf finally_called_def call1_def panic_def Println_def)
  from d n d2 f0 d3 n2 n3 show ?thesis by simp
qed

end
